theory Spec2Isabelle
  imports Complex_Main "HOL-Library.Log_Nat"
begin

section \<open>JavaScript values of a JSON request body\<close>

text \<open>
  The routes read loosely typed fields of \<^verbatim>\<open>req.body\<close> and coerce them with
  \<^verbatim>\<open>Number(..)\<close>, \<^verbatim>\<open>!x\<close>, \<^verbatim>\<open>x || 1\<close> and \<^verbatim>\<open>typeof x === 'string'\<close>. A scalar
  field is a \<open>jsval\<close>: absent (\<^verbatim>\<open>undefined\<close>), \<^verbatim>\<open>null\<close>, a boolean, a number or a
  string; an array or an object in the place of a scalar is left out. A JavaScript
  number is \<open>NaN\<close> or a finite double, given as the rational it is; the infinities are
  left out.
\<close>

datatype jsnum = NaN | Num rat

datatype jsval = JUndefined | JNull | JBool bool | JNum rat | JStr string

subsection \<open>Arithmetic on doubles\<close>

text \<open>
  \<^verbatim>\<open>+\<close> and \<^verbatim>\<open>*\<close> on JavaScript numbers give the double nearest to the exact
  result, a tie going to the even significand. \<open>ilog2 x\<close> is the binary exponent of
  a positive \<open>x\<close>: \<open>2 powi ilog2 x \<le> x < 2 powi (ilog2 x + 1)\<close>. \<open>fl\<close> rounds to 53
  significant bits. The exponent is not bounded here: overflow to an infinity and
  the subnormal numbers are left out.
\<close>

definition ilog2 :: "rat \<Rightarrow> int" where
  "ilog2 x =
     (let k = bitlen (fst (quotient_of x)) - bitlen (snd (quotient_of x))
      in if 2 powi k \<le> x then k else k - 1)"

definition round_even :: "rat \<Rightarrow> int" where
  "round_even m =
     (let f = \<lfloor>m\<rfloor>; d = m - rat_of_int f
      in if d < 1 / 2 then f else if 1 / 2 < d then f + 1 else if even f then f else f + 1)"

definition fl :: "rat \<Rightarrow> rat" where
  "fl x =
     (if x = 0 then 0
      else let e = ilog2 \<bar>x\<bar> - 52
           in sgn x * rat_of_int (round_even (\<bar>x\<bar> / 2 powi e)) * 2 powi e)"

definition js_add :: "rat \<Rightarrow> rat \<Rightarrow> rat" where
  "js_add x y = fl (x + y)"

definition js_mul :: "rat \<Rightarrow> rat \<Rightarrow> rat" where
  "js_mul x y = fl (x * y)"

text \<open>A number with its fraction cut off (towards zero).\<close>

definition trunc :: "rat \<Rightarrow> int" where
  "trunc r = (if 0 \<le> r then \<lfloor>r\<rfloor> else \<lceil>r\<rceil>)"

definition whole :: "rat \<Rightarrow> bool" where
  "whole r = (rat_of_int (trunc r) = r)"

subsection \<open>Coercions\<close>

text \<open>
  What the handlers use and the repository does not contain: the conversion of a
  string to a number inside \<^verbatim>\<open>Number(..)\<close>, \<^verbatim>\<open>String.prototype.trim\<close> (which
  strips the white space and the line terminators of Unicode), the bcrypt functions,
  how many values of a serial key an insert skips (a sequence does not hand out
  again the values drawn by inserts that were rolled back), and two facts of
  \<^verbatim>\<open>schema.prisma\<close>, which is not among the sources. Cart.js documents a
  \<^verbatim>\<open>@@unique(userId, status)\<close> constraint on Cart; a migration adds required
  \<^verbatim>\<open>userId\<close> and \<^verbatim>\<open>productId\<close> columns to Review. All are parameters here, so
  every result holds whatever they are.
\<close>

record env =
  StringToNumber :: "string \<Rightarrow> jsnum"
  String_trim :: "string \<Rightarrow> string"
  serial_skip :: "int list \<Rightarrow> nat"
  bcrypt_hash :: "string \<Rightarrow> string"
  bcrypt_compare :: "string \<Rightarrow> string \<Rightarrow> bool"
  cart_user_status_unique :: bool
  review_links_required :: bool

fun Number :: "env \<Rightarrow> jsval \<Rightarrow> jsnum" where
  "Number e JUndefined = NaN"
| "Number e JNull = Num 0"
| "Number e (JBool b) = Num (if b then 1 else 0)"
| "Number e (JNum r) = Num r"
| "Number e (JStr s) = StringToNumber e s"

text \<open>\<^verbatim>\<open>!v\<close> is \<open>\<not> truthy v\<close>.\<close>

fun truthy :: "jsval \<Rightarrow> bool" where
  "truthy JUndefined = False"
| "truthy JNull = False"
| "truthy (JBool b) = b"
| "truthy (JNum r) = (r \<noteq> 0)"
| "truthy (JStr s) = (s \<noteq> [])"

text \<open>\<^verbatim>\<open>n || 1\<close> for a number \<open>n\<close>: \<open>NaN\<close> and \<open>0\<close> are falsy.\<close>

fun or_1 :: "jsnum \<Rightarrow> rat" where
  "or_1 NaN = 1"
| "or_1 (Num r) = (if r = 0 then 1 else r)"

text \<open>
  The quantity expression \<^verbatim>\<open>Math.max(1, Number(qty) || 1)\<close>, written out in
  index.js (three times) and in Cart.js (add, qty, merge).
\<close>

definition norm_qty :: "env \<Rightarrow> jsval \<Rightarrow> rat" where
  "norm_qty e v = max 1 (or_1 (Number e v))"

text \<open>
  Modelled from the spec: \<^verbatim>\<open>schema.prisma\<close> is missing; the spec gives stock and
  line quantities as integers and the migrations declare such columns \<^verbatim>\<open>INTEGER\<close>.
  The Prisma client hands a JavaScript number given for an \<^verbatim>\<open>Int\<close> field on as an
  integer, cutting off its fraction (a quantity 2.5 is stored as 2), and throws when
  that integer does not fit 32 bits.
\<close>

definition prisma_Int :: "rat \<Rightarrow> int option" where
  "prisma_Int r =
     (if - 2147483648 \<le> trunc r \<and> trunc r \<le> 2147483647 then Some (trunc r) else None)"

section \<open>The persisted store\<close>

record user =
  u_id :: int
  u_email :: string
  u_name :: "string option"
  u_password :: string
  u_admin :: bool

record product =
  p_id :: int
  p_slug :: string
  p_name :: string
  p_price :: rat
  p_stock :: int

datatype cart_status = ACTIVE | CHECKED_OUT

record cart =
  c_id :: int
  c_userId :: int
  c_status :: cart_status

record cartItem =
  ci_cartId :: int
  ci_productId :: int
  ci_qty :: int

record sale =
  s_id :: int
  s_total :: rat
  s_userId :: int

record saleItem =
  si_saleId :: int
  si_productId :: int
  si_qty :: int
  si_price :: rat

record review =
  r_id :: int
  r_name :: "string option"
  r_text :: string
  r_stars :: int
  r_published :: bool

record store =
  users :: "user list"
  products :: "product list"
  carts :: "cart list"
  cartItems :: "cartItem list"
  sales :: "sale list"
  saleItems :: "saleItem list"
  reviews :: "review list"

text \<open>
  A serial primary key: the next value is above every id in the table, by one when
  the sequence has skipped nothing.
\<close>

definition fresh_id :: "env \<Rightarrow> int list \<Rightarrow> int" where
  "fresh_id e ids = foldr max ids 0 + 1 + int (serial_skip e ids)"

section \<open>Requests, responses and the authentication guards (User.js)\<close>

record claims =
  cl_id :: int
  cl_email :: string
  cl_admin :: bool

text \<open>
  The \<^verbatim>\<open>auth\<close> cookie of a request: absent, present but refused by
  \<^verbatim>\<open>jwt.verify\<close>, or verified with its decoded claims.
\<close>

datatype cookie = NoCookie | InvalidToken | ValidToken claims

type_synonym cart_view = "cart \<times> (cartItem \<times> product option) list"

text \<open>
  What a handler answers. \<open>Rejected\<close> is an async handler without try/catch whose
  promise rejects: the handler writes no response.
\<close>

datatype response =
    Error nat string
  | CheckoutOk int
  | CartJson "cart_view option"
  | OkTrue
  | ReviewJson nat review
  | UserJson int string "string option" bool
  | Rejected

fun requireAuth :: "cookie \<Rightarrow> response + claims" where
  "requireAuth NoCookie = Inl (Error 401 ''Unauthenticated'')"
| "requireAuth InvalidToken = Inl (Error 401 ''Invalid token'')"
| "requireAuth (ValidToken c) = Inr c"

fun requireAdmin :: "claims \<Rightarrow> response option" where
  "requireAdmin c = (if cl_admin c then None else Some (Error 403 ''Forbidden''))"

section \<open>POST /api/checkout (index.js)\<close>

text \<open>
  An element of \<^verbatim>\<open>req.body.items\<close>: \<^verbatim>\<open>{slug, qty}\<close>. The slug is a JSON string,
  for which \<^verbatim>\<open>String(i.slug)\<close> is the identity and \<^verbatim>\<open>bySlug[i.slug]\<close> uses the
  same key; the quantity is any scalar.
\<close>

record item =
  i_slug :: string
  i_qty :: jsval

text \<open>\<^verbatim>\<open>prisma.product.findMany({ where: { slug: { in: slugs } } })\<close>\<close>

definition findMany_slug_in :: "store \<Rightarrow> string list \<Rightarrow> product list" where
  "findMany_slug_in st slugs = filter (\<lambda>p. p_slug p \<in> set slugs) (products st)"

text \<open>
  \<^verbatim>\<open>Object.fromEntries\<close>: a later entry with the same key wins. A key that is not
  an entry reads as \<open>None\<close> (\<^verbatim>\<open>undefined\<close>); the names inherited from
  \<^verbatim>\<open>Object.prototype\<close> are not modelled.
\<close>

definition fromEntries :: "(string \<times> 'a) list \<Rightarrow> string \<Rightarrow> 'a option" where
  "fromEntries es = map_of (rev es)"

text \<open>
  The stock loop. \<open>Some r\<close> is the early answer \<open>r\<close>; a slug missing from
  \<open>bySlug\<close> makes \<^verbatim>\<open>p.stock\<close> throw a TypeError, which the handler's catch
  turns into the 500 answer.
\<close>

fun check_stock :: "env \<Rightarrow> (string \<Rightarrow> product option) \<Rightarrow> item list \<Rightarrow> response option" where
  "check_stock e bySlug [] = None"
| "check_stock e bySlug (i # rest) =
     (case bySlug (i_slug i) of
        None \<Rightarrow> Some (Error 500 ''Checkout failed'')
      | Some p \<Rightarrow>
          if rat_of_int (p_stock p) < norm_qty e (i_qty i)
          then Some (Error 400 (''Insufficient stock for '' @ p_name p))
          else check_stock e bySlug rest)"

text \<open>
  \<^verbatim>\<open>items.reduce((s, i) => s + bySlug[i.slug].price * q, 0)\<close>, each product and each
  partial sum rounded to a double; \<open>None\<close> is the TypeError.
\<close>

fun reduce_total :: "env \<Rightarrow> (string \<Rightarrow> product option) \<Rightarrow> rat \<Rightarrow> item list \<Rightarrow> rat option" where
  "reduce_total e bySlug s [] = Some s"
| "reduce_total e bySlug s (i # rest) =
     (case bySlug (i_slug i) of
        None \<Rightarrow> None
      | Some p \<Rightarrow> reduce_total e bySlug (js_add s (js_mul (p_price p) (norm_qty e (i_qty i)))) rest)"

text \<open>
  The writes of the transaction; \<open>None\<close> is a throw, which rolls the transaction back.
  \<^verbatim>\<open>tx.sale.create\<close>: the migration gives Sale.userId a foreign key to User.

  Modelled from the spec: the tables Sale, SaleItem, Cart and CartItem are declared in
  \<^verbatim>\<open>schema.prisma\<close>, which is missing. By the spec an order-item belongs to one order
  and references a product, a cart is owned by one user, and a cart line belongs to one
  cart and references one product; a write that names a row that does not exist throws.
  Sale.total and SaleItem.price hold a double, as Product.price does in the first
  migration (\<^verbatim>\<open>DOUBLE PRECISION\<close>).
\<close>

definition sale_create :: "env \<Rightarrow> store \<Rightarrow> rat \<Rightarrow> int \<Rightarrow> (sale \<times> store) option" where
  "sale_create e st tot uid =
     (if uid \<in> set (map u_id (users st))
      then let sl = \<lparr>s_id = fresh_id e (map s_id (sales st)), s_total = tot, s_userId = uid\<rparr>
           in Some (sl, st\<lparr>sales := sales st @ [sl]\<rparr>)
      else None)"

definition saleItem_create :: "store \<Rightarrow> int \<Rightarrow> int \<Rightarrow> rat \<Rightarrow> rat \<Rightarrow> store option" where
  "saleItem_create st sid pid q price =
     (case prisma_Int q of
        None \<Rightarrow> None
      | Some n \<Rightarrow>
          if pid \<in> set (map p_id (products st)) \<and> sid \<in> set (map s_id (sales st))
          then Some (st\<lparr>saleItems := saleItems st @
                 [\<lparr>si_saleId = sid, si_productId = pid, si_qty = n, si_price = price\<rparr>]\<rparr>)
          else None)"

text \<open>\<^verbatim>\<open>tx.product.update({ where: { id }, data: { stock: { decrement: q } } })\<close>\<close>

definition product_decrement :: "store \<Rightarrow> int \<Rightarrow> rat \<Rightarrow> store option" where
  "product_decrement st pid q =
     (case prisma_Int q of
        None \<Rightarrow> None
      | Some n \<Rightarrow>
          if pid \<in> set (map p_id (products st))
          then Some (st\<lparr>products :=
                 map (\<lambda>p. if p_id p = pid then p\<lparr>p_stock := p_stock p - n\<rparr> else p) (products st)\<rparr>)
          else None)"

fun tx_items :: "env \<Rightarrow> (string \<Rightarrow> product option) \<Rightarrow> int \<Rightarrow> store \<Rightarrow> item list \<Rightarrow> store option" where
  "tx_items e bySlug sid st [] = Some st"
| "tx_items e bySlug sid st (i # rest) =
     (case bySlug (i_slug i) of
        None \<Rightarrow> None
      | Some p \<Rightarrow>
          (case saleItem_create st sid (p_id p) (norm_qty e (i_qty i)) (p_price p) of
             None \<Rightarrow> None
           | Some st1 \<Rightarrow>
               (case product_decrement st1 (p_id p) (norm_qty e (i_qty i)) of
                  None \<Rightarrow> None
                | Some st2 \<Rightarrow> tx_items e bySlug sid st2 rest)))"

text \<open>
  \<^verbatim>\<open>tx.cart.updateMany({ where: { userId, status: 'ACTIVE' }, data: { status: 'CHECKED_OUT' } })\<close>.
  Under the documented \<^verbatim>\<open>@@unique(userId, status)\<close> it throws when the user would
  then own two carts of one status.
\<close>

definition close_cart :: "int \<Rightarrow> cart \<Rightarrow> cart" where
  "close_cart uid c =
     (if c_userId c = uid \<and> c_status c = ACTIVE then c\<lparr>c_status := CHECKED_OUT\<rparr> else c)"

definition cart_unique_ok :: "env \<Rightarrow> cart list \<Rightarrow> bool" where
  "cart_unique_ok e cs =
     (\<not> cart_user_status_unique e \<or> distinct (map (\<lambda>c. (c_userId c, c_status c)) cs))"

definition cart_updateMany :: "env \<Rightarrow> store \<Rightarrow> int \<Rightarrow> store option" where
  "cart_updateMany e st uid =
     (let cs = map (close_cart uid) (carts st)
      in if cs = carts st \<or> cart_unique_ok e cs then Some (st\<lparr>carts := cs\<rparr>) else None)"

definition transaction :: "env \<Rightarrow> store \<Rightarrow> (string \<Rightarrow> product option) \<Rightarrow> rat \<Rightarrow> int \<Rightarrow> item list
    \<Rightarrow> (sale \<times> store) option" where
  "transaction e st bySlug tot uid items =
     (case sale_create e st tot uid of
        None \<Rightarrow> None
      | Some (sl, st1) \<Rightarrow>
          (case tx_items e bySlug (s_id sl) st1 items of
             None \<Rightarrow> None
           | Some st2 \<Rightarrow>
               (case cart_updateMany e st2 uid of
                  None \<Rightarrow> None
                | Some st3 \<Rightarrow> Some (sl, st3))))"

text \<open>
  The body's \<^verbatim>\<open>items\<close> is \<open>Some xs\<close> when it is an array and \<open>None\<close> otherwise:
  \<^verbatim>\<open>Array.isArray(req.body?.items) ? req.body.items : []\<close>.
\<close>

definition req_items :: "item list option \<Rightarrow> item list" where
  "req_items body = (case body of Some xs \<Rightarrow> xs | None \<Rightarrow> [])"

definition checkout :: "env \<Rightarrow> store \<Rightarrow> cookie \<Rightarrow> item list option \<Rightarrow> response \<times> store" where
  "checkout e st ck body =
     (case requireAuth ck of
        Inl r \<Rightarrow> (r, st)
      | Inr u \<Rightarrow>
          (let items = req_items body in
           if items = [] then (Error 400 ''Empty cart'', st)
           else
             (let slugs = map i_slug items;
                  prods = findMany_slug_in st slugs
              in if length prods \<noteq> length slugs then (Error 400 ''Unknown product in cart'', st)
                 else
                   (let bySlug = fromEntries (map (\<lambda>p. (p_slug p, p)) prods)
                    in case check_stock e bySlug items of
                         Some r \<Rightarrow> (r, st)
                       | None \<Rightarrow>
                           (case reduce_total e bySlug 0 items of
                              None \<Rightarrow> (Error 500 ''Checkout failed'', st)
                            | Some tot \<Rightarrow>
                                (case transaction e st bySlug tot (cl_id u) items of
                                   None \<Rightarrow> (Error 500 ''Checkout failed'', st)
                                 | Some (sl, st') \<Rightarrow> (CheckoutOk (s_id sl), st')))))))"

section \<open>The cart routes (Cart.js)\<close>

text \<open>\<^verbatim>\<open>include: { items: { include: { product: true } } }\<close>\<close>

definition include_items :: "store \<Rightarrow> cart \<Rightarrow> cart_view" where
  "include_items st c =
     (c, map (\<lambda>ci. (ci, find (\<lambda>p. p_id p = ci_productId ci) (products st)))
           (filter (\<lambda>ci. ci_cartId ci = c_id c) (cartItems st)))"

text \<open>
  \<^verbatim>\<open>prisma.cart.create({ data: { userId } })\<close>; the owner must exist.

  Modelled from the spec: the default of Cart.status is declared in the missing
  \<^verbatim>\<open>schema.prisma\<close>; by the spec a cart is created ACTIVE.
\<close>

definition cart_create :: "env \<Rightarrow> store \<Rightarrow> int \<Rightarrow> (cart \<times> store) option" where
  "cart_create e st uid =
     (let c = \<lparr>c_id = fresh_id e (map c_id (carts st)), c_userId = uid, c_status = ACTIVE\<rparr>
      in if uid \<in> set (map u_id (users st))
            \<and> (\<not> cart_user_status_unique e
                 \<or> (uid, ACTIVE) \<notin> set (map (\<lambda>c. (c_userId c, c_status c)) (carts st)))
         then Some (c, st\<lparr>carts := carts st @ [c]\<rparr>)
         else None)"

definition getOrCreateActiveCart :: "env \<Rightarrow> store \<Rightarrow> int \<Rightarrow> (cart_view \<times> store) option" where
  "getOrCreateActiveCart e st userId =
     (case find (\<lambda>c. c_userId c = userId \<and> c_status c = ACTIVE) (carts st) of
        Some c \<Rightarrow> Some (include_items st c, st)
      | None \<Rightarrow>
          (case cart_create e st userId of
             None \<Rightarrow> None
           | Some (c, st') \<Rightarrow> Some (include_items st' c, st')))"

definition cart_findUnique :: "store \<Rightarrow> int \<Rightarrow> cart_view option" where
  "cart_findUnique st cid = map_option (include_items st) (find (\<lambda>c. c_id c = cid) (carts st))"

text \<open>
  A JavaScript number given where Prisma expects an \<^verbatim>\<open>Int\<close> key: \<open>NaN\<close> is
  refused, a number is cut to an integer as for any \<^verbatim>\<open>Int\<close> field.
\<close>

fun int_arg :: "jsnum \<Rightarrow> int option" where
  "int_arg NaN = None"
| "int_arg (Num r) = prisma_Int r"

definition cartItem_findUnique :: "store \<Rightarrow> int \<Rightarrow> int \<Rightarrow> cartItem option" where
  "cartItem_findUnique st cid pid =
     find (\<lambda>ci. ci_cartId ci = cid \<and> ci_productId ci = pid) (cartItems st)"

definition cartItem_update :: "store \<Rightarrow> int \<Rightarrow> int \<Rightarrow> rat \<Rightarrow> store option" where
  "cartItem_update st cid pid q =
     (case prisma_Int q of
        None \<Rightarrow> None
      | Some n \<Rightarrow>
          if cartItem_findUnique st cid pid = None then None
          else Some (st\<lparr>cartItems :=
                 map (\<lambda>ci. if ci_cartId ci = cid \<and> ci_productId ci = pid then ci\<lparr>ci_qty := n\<rparr> else ci)
                   (cartItems st)\<rparr>))"

definition cartItem_create :: "store \<Rightarrow> int \<Rightarrow> int \<Rightarrow> rat \<Rightarrow> store option" where
  "cartItem_create st cid pid q =
     (case prisma_Int q of
        None \<Rightarrow> None
      | Some n \<Rightarrow>
          if cid \<in> set (map c_id (carts st)) \<and> pid \<in> set (map p_id (products st))
             \<and> cartItem_findUnique st cid pid = None
          then Some (st\<lparr>cartItems := cartItems st @
                 [\<lparr>ci_cartId = cid, ci_productId = pid, ci_qty = n\<rparr>]\<rparr>)
          else None)"

definition cartItem_delete :: "store \<Rightarrow> int \<Rightarrow> int \<Rightarrow> store option" where
  "cartItem_delete st cid pid =
     (if cartItem_findUnique st cid pid = None then None
      else Some (st\<lparr>cartItems :=
             filter (\<lambda>ci. \<not> (ci_cartId ci = cid \<and> ci_productId ci = pid)) (cartItems st)\<rparr>))"

definition cartItem_deleteMany :: "store \<Rightarrow> int \<Rightarrow> store" where
  "cartItem_deleteMany st cid = st\<lparr>cartItems := filter (\<lambda>ci. ci_cartId ci \<noteq> cid) (cartItems st)\<rparr>"

text \<open>
  The manual upsert that add and merge both write out: find the line by
  (cartId, productId); update it to \<^verbatim>\<open>existing.qty + q\<close> (a sum of doubles), or
  create it with \<open>q\<close>.
\<close>

definition upsert_line :: "store \<Rightarrow> int \<Rightarrow> jsnum \<Rightarrow> rat \<Rightarrow> store option" where
  "upsert_line st cid productId q =
     (case int_arg productId of
        None \<Rightarrow> None
      | Some pid \<Rightarrow>
          (case cartItem_findUnique st cid pid of
             Some existing \<Rightarrow> cartItem_update st cid pid (js_add (rat_of_int (ci_qty existing)) q)
           | None \<Rightarrow> cartItem_create st cid pid q))"

definition cart_get :: "env \<Rightarrow> store \<Rightarrow> cookie \<Rightarrow> response \<times> store" where
  "cart_get e st ck =
     (case requireAuth ck of
        Inl r \<Rightarrow> (r, st)
      | Inr u \<Rightarrow>
          (case getOrCreateActiveCart e st (cl_id u) of
             None \<Rightarrow> (Rejected, st)
           | Some (cart, st1) \<Rightarrow> (CartJson (Some cart), st1)))"

text \<open>POST /api/cart/add, body \<^verbatim>\<open>{ productId, qty = 1 }\<close>.\<close>

definition cart_add :: "env \<Rightarrow> store \<Rightarrow> cookie \<Rightarrow> jsval \<Rightarrow> jsval \<Rightarrow> response \<times> store" where
  "cart_add e st ck productId qty =
     (case requireAuth ck of
        Inl r \<Rightarrow> (r, st)
      | Inr u \<Rightarrow>
          if \<not> truthy productId then (Error 400 ''productId requis'', st)
          else
            (let q = norm_qty e (if qty = JUndefined then JNum 1 else qty)
             in case getOrCreateActiveCart e st (cl_id u) of
                  None \<Rightarrow> (Rejected, st)
                | Some (cart, st1) \<Rightarrow>
                    (case upsert_line st1 (c_id (fst cart)) (Number e productId) q of
                       None \<Rightarrow> (Rejected, st1)
                     | Some st2 \<Rightarrow> (CartJson (cart_findUnique st2 (c_id (fst cart))), st2))))"

text \<open>PATCH /api/cart/qty, body \<^verbatim>\<open>{ productId, qty }\<close>.\<close>

definition cart_qty :: "env \<Rightarrow> store \<Rightarrow> cookie \<Rightarrow> jsval \<Rightarrow> jsval \<Rightarrow> response \<times> store" where
  "cart_qty e st ck productId qty =
     (case requireAuth ck of
        Inl r \<Rightarrow> (r, st)
      | Inr u \<Rightarrow>
          (let q = norm_qty e qty
           in case getOrCreateActiveCart e st (cl_id u) of
                None \<Rightarrow> (Rejected, st)
              | Some (cart, st1) \<Rightarrow>
                  (case (case int_arg (Number e productId) of
                           None \<Rightarrow> None
                         | Some pid \<Rightarrow> cartItem_update st1 (c_id (fst cart)) pid q) of
                     None \<Rightarrow> (Rejected, st1)
                   | Some st2 \<Rightarrow> (CartJson (cart_findUnique st2 (c_id (fst cart))), st2))))"

text \<open>DELETE /api/cart/item/:productId; the route parameter is a string.\<close>

definition cart_remove :: "env \<Rightarrow> store \<Rightarrow> cookie \<Rightarrow> string \<Rightarrow> response \<times> store" where
  "cart_remove e st ck productId =
     (case requireAuth ck of
        Inl r \<Rightarrow> (r, st)
      | Inr u \<Rightarrow>
          (case getOrCreateActiveCart e st (cl_id u) of
             None \<Rightarrow> (Rejected, st)
           | Some (cart, st1) \<Rightarrow>
               (case (case int_arg (Number e (JStr productId)) of
                        None \<Rightarrow> None
                      | Some pid \<Rightarrow> cartItem_delete st1 (c_id (fst cart)) pid) of
                  None \<Rightarrow> (Rejected, st1)
                | Some st2 \<Rightarrow> (CartJson (cart_findUnique st2 (c_id (fst cart))), st2))))"

text \<open>DELETE /api/cart/clear answers \<^verbatim>\<open>{ ok: true }\<close>.\<close>

definition cart_clear :: "env \<Rightarrow> store \<Rightarrow> cookie \<Rightarrow> response \<times> store" where
  "cart_clear e st ck =
     (case requireAuth ck of
        Inl r \<Rightarrow> (r, st)
      | Inr u \<Rightarrow>
          (case getOrCreateActiveCart e st (cl_id u) of
             None \<Rightarrow> (Rejected, st)
           | Some (cart, st1) \<Rightarrow> (OkTrue, cartItem_deleteMany st1 (c_id (fst cart)))))"

text \<open>
  POST /api/cart/merge, body \<^verbatim>\<open>[{ productId, qty }, ...]\<close> (\<open>None\<close> when the body is
  not an array). The loop runs outside any transaction: \<open>Inl st\<close> is a throw that
  leaves the writes made so far in \<open>st\<close>.
\<close>

record guest =
  g_productId :: jsval
  g_qty :: jsval

fun merge_loop :: "env \<Rightarrow> int \<Rightarrow> store \<Rightarrow> guest list \<Rightarrow> store + store" where
  "merge_loop e cid st [] = Inr st"
| "merge_loop e cid st (gi # rest) =
     (case upsert_line st cid (Number e (g_productId gi)) (norm_qty e (g_qty gi)) of
        None \<Rightarrow> Inl st
      | Some st1 \<Rightarrow> merge_loop e cid st1 rest)"

definition cart_merge :: "env \<Rightarrow> store \<Rightarrow> cookie \<Rightarrow> guest list option \<Rightarrow> response \<times> store" where
  "cart_merge e st ck body =
     (case requireAuth ck of
        Inl r \<Rightarrow> (r, st)
      | Inr u \<Rightarrow>
          (let guestItems = (case body of Some gs \<Rightarrow> gs | None \<Rightarrow> [])
           in case getOrCreateActiveCart e st (cl_id u) of
                None \<Rightarrow> (Rejected, st)
              | Some (cart, st1) \<Rightarrow>
                  (case merge_loop e (c_id (fst cart)) st1 guestItems of
                     Inl st2 \<Rightarrow> (Rejected, st2)
                   | Inr st2 \<Rightarrow> (CartJson (cart_findUnique st2 (c_id (fst cart))), st2))))"

section \<open>The review routes (Review.js)\<close>

text \<open>\<^verbatim>\<open>s < k\<close> and \<^verbatim>\<open>s > k\<close> for a number \<open>s\<close>: both are false at \<open>NaN\<close>.\<close>

fun js_lt :: "jsnum \<Rightarrow> rat \<Rightarrow> bool" where
  "js_lt NaN k = False"
| "js_lt (Num r) k = (r < k)"

fun js_gt :: "jsnum \<Rightarrow> rat \<Rightarrow> bool" where
  "js_gt NaN k = False"
| "js_gt (Num r) k = (r > k)"

text \<open>The message \<^verbatim>\<open>stars doit etre entre 1 et 5\<close>, with its circumflex in UTF-8.\<close>

definition stars_msg :: string where
  "stars_msg = ''stars doit '' @ [char_of (195::nat), char_of (170::nat)] @ ''tre entre 1 et 5''"

text \<open>
  \<^verbatim>\<open>prisma.review.create({ data: { name, text, stars: s, published: false } })\<close>.
  It throws on a value of the wrong type, and when the schema requires the links
  to a user and a product, which this call never gives.
\<close>

definition review_create :: "env \<Rightarrow> store \<Rightarrow> jsval \<Rightarrow> jsval \<Rightarrow> jsnum \<Rightarrow> (review \<times> store) option" where
  "review_create e st name text s =
     (case (name, text, int_arg s) of
        (JStr n, JStr t, Some k) \<Rightarrow>
          if review_links_required e then None
          else
            (let rv = \<lparr>r_id = fresh_id e (map r_id (reviews st)), r_name = Some n, r_text = t,
                       r_stars = k, r_published = False\<rparr>
             in Some (rv, st\<lparr>reviews := reviews st @ [rv]\<rparr>))
      | _ \<Rightarrow> None)"

text \<open>POST /api/reviews, body \<^verbatim>\<open>{ name, text, stars }\<close>; no guard.\<close>

definition post_review :: "env \<Rightarrow> store \<Rightarrow> jsval \<Rightarrow> jsval \<Rightarrow> jsval \<Rightarrow> response \<times> store" where
  "post_review e st name text stars =
     (let s = Number e stars
      in if \<not> truthy name \<or> \<not> truthy text \<or> s = NaN \<or> s = Num 0
         then (Error 400 ''name, text, stars requis'', st)
         else if js_lt s 1 \<or> js_gt s 5 then (Error 400 stars_msg, st)
         else
           (case review_create e st name text s of
              None \<Rightarrow> (Rejected, st)
            | Some (rv, st') \<Rightarrow> (ReviewJson 201 rv, st')))"

text \<open>
  The \<^verbatim>\<open>data\<close> object of the edit, field by field: \<open>None\<close> is a value Prisma
  refuses, \<open>Some f\<close> the change to the row (the identity for an absent field).
\<close>

fun set_name :: "jsval \<Rightarrow> (review \<Rightarrow> review) option" where
  "set_name JUndefined = Some (\<lambda>r. r)"
| "set_name JNull = Some (\<lambda>r. r\<lparr>r_name := None\<rparr>)"
| "set_name (JStr n) = Some (\<lambda>r. r\<lparr>r_name := Some n\<rparr>)"
| "set_name _ = None"

fun set_text :: "jsval \<Rightarrow> (review \<Rightarrow> review) option" where
  "set_text JUndefined = Some (\<lambda>r. r)"
| "set_text (JStr t) = Some (\<lambda>r. r\<lparr>r_text := t\<rparr>)"
| "set_text _ = None"

definition set_stars :: "env \<Rightarrow> jsval \<Rightarrow> (review \<Rightarrow> review) option" where
  "set_stars e stars =
     (if stars = JUndefined then Some (\<lambda>r. r)
      else map_option (\<lambda>k r. r\<lparr>r_stars := k\<rparr>) (int_arg (Number e stars)))"

definition set_published :: "jsval \<Rightarrow> review \<Rightarrow> review" where
  "set_published published =
     (if published = JUndefined then (\<lambda>r. r) else (\<lambda>r. r\<lparr>r_published := truthy published\<rparr>))"

text \<open>\<^verbatim>\<open>prisma.review.update({ where: { id }, data })\<close>; it throws when no row has the id.\<close>

definition review_update :: "env \<Rightarrow> store \<Rightarrow> jsnum \<Rightarrow> jsval \<Rightarrow> jsval \<Rightarrow> jsval \<Rightarrow> jsval
    \<Rightarrow> (review \<times> store) option" where
  "review_update e st idn name text stars published =
     (case (int_arg idn, set_name name, set_text text, set_stars e stars) of
        (Some i, Some fn, Some ft, Some fs) \<Rightarrow>
          (case find (\<lambda>r. r_id r = i) (reviews st) of
             None \<Rightarrow> None
           | Some old \<Rightarrow>
               (let f = (\<lambda>r. set_published published (fs (ft (fn r))))
                in Some (f old, st\<lparr>reviews := map (\<lambda>r. if r_id r = i then f r else r) (reviews st)\<rparr>)))
      | _ \<Rightarrow> None)"

text \<open>PATCH /api/reviews/:id behind requireAuth and requireAdmin.\<close>

definition patch_review :: "env \<Rightarrow> store \<Rightarrow> cookie \<Rightarrow> string \<Rightarrow> jsval \<Rightarrow> jsval \<Rightarrow> jsval \<Rightarrow> jsval
    \<Rightarrow> response \<times> store" where
  "patch_review e st ck idp name text stars published =
     (case requireAuth ck of
        Inl r \<Rightarrow> (r, st)
      | Inr u \<Rightarrow>
          (case requireAdmin u of
             Some r \<Rightarrow> (r, st)
           | None \<Rightarrow>
               if stars \<noteq> JUndefined \<and> (js_lt (Number e stars) 1 \<or> js_gt (Number e stars) 5)
               then (Error 400 stars_msg, st)
               else
                 (case review_update e st (Number e (JStr idp)) name text stars published of
                    None \<Rightarrow> (Rejected, st)
                  | Some (rv, st') \<Rightarrow> (ReviewJson 200 rv, st'))))"

section \<open>PATCH /api/me (User.js)\<close>

text \<open>
  The fields of \<^verbatim>\<open>data\<close>; \<open>None\<close> is a key that is not set. \<^verbatim>\<open>name.trim()\<close> and
  \<^verbatim>\<open>email.trim()\<close> are \<open>String_trim\<close>.
\<close>

definition data_name :: "env \<Rightarrow> jsval \<Rightarrow> string option" where
  "data_name e name = (case name of JStr n \<Rightarrow> Some (String_trim e n) | _ \<Rightarrow> None)"

definition data_email :: "env \<Rightarrow> user \<Rightarrow> jsval \<Rightarrow> string option" where
  "data_email e me email =
     (case email of
        JStr m \<Rightarrow>
          if String_trim e m \<noteq> [] \<and> String_trim e m \<noteq> u_email me
          then Some (String_trim e m) else None
      | _ \<Rightarrow> None)"

definition data_password :: "env \<Rightarrow> jsval \<Rightarrow> string option" where
  "data_password e newPassword =
     (case newPassword of
        JStr np \<Rightarrow> if np \<noteq> [] then Some (bcrypt_hash e np) else None
      | _ \<Rightarrow> None)"

text \<open>The message \<^verbatim>\<open>Email deja utilise\<close>, with its accents in UTF-8.\<close>

definition email_msg :: string where
  "email_msg = ''Email d'' @ [char_of (195::nat), char_of (169::nat)] @ ''j''
     @ [char_of (195::nat), char_of (160::nat)] @ '' utilis'' @ [char_of (195::nat), char_of (169::nat)]"

text \<open>\<^verbatim>\<open>existing && existing.id !== me.id\<close> for the user found by the new email.\<close>

definition email_taken :: "store \<Rightarrow> user \<Rightarrow> string \<Rightarrow> bool" where
  "email_taken st me m =
     (case find (\<lambda>x. u_email x = m) (users st) of
        Some existing \<Rightarrow> u_id existing \<noteq> u_id me
      | None \<Rightarrow> False)"

definition apply_data :: "string option \<Rightarrow> string option \<Rightarrow> string option \<Rightarrow> user \<Rightarrow> user" where
  "apply_data dn de dp x =
     x\<lparr>u_name := (case dn of Some n \<Rightarrow> Some n | None \<Rightarrow> u_name x),
       u_email := (case de of Some m \<Rightarrow> m | None \<Rightarrow> u_email x),
       u_password := (case dp of Some h \<Rightarrow> h | None \<Rightarrow> u_password x)\<rparr>"

text \<open>\<^verbatim>\<open>prisma.user.update({ where: { id: me.id }, data })\<close> and the row it returns.\<close>

definition user_update :: "store \<Rightarrow> user \<Rightarrow> string option \<Rightarrow> string option \<Rightarrow> string option
    \<Rightarrow> user \<times> store" where
  "user_update st me dn de dp =
     (apply_data dn de dp me,
      st\<lparr>users := map (\<lambda>x. if u_id x = u_id me then apply_data dn de dp x else x) (users st)\<rparr>)"

text \<open>
  The handler answers with a response, the payload of a re-issued \<^verbatim>\<open>auth\<close> cookie
  (\<open>None\<close> when \<^verbatim>\<open>setAuthCookie\<close> is not called) and the store. First the part
  after the current secret has been verified.
\<close>

definition update_me :: "env \<Rightarrow> store \<Rightarrow> user \<Rightarrow> jsval \<Rightarrow> jsval \<Rightarrow> jsval
    \<Rightarrow> response \<times> claims option \<times> store" where
  "update_me e st me name email newPassword =
     (let dn = data_name e name; de = data_email e me email
      in if (case de of Some m \<Rightarrow> email_taken st me m | None \<Rightarrow> False)
         then (Error 409 email_msg, None, st)
         else
           (let dp = data_password e newPassword
            in if dn = None \<and> de = None \<and> dp = None
               then (UserJson (u_id me) (u_email me) (u_name me) (u_admin me), None, st)
               else
                 (case user_update st me dn de dp of
                    (updated, st') \<Rightarrow>
                      (UserJson (u_id updated) (u_email updated) (u_name updated) (u_admin updated),
                       (if u_email updated \<noteq> u_email me
                        then Some \<lparr>cl_id = u_id updated, cl_email = u_email updated,
                                   cl_admin = u_admin updated\<rparr>
                        else None),
                       st'))))"

text \<open>
  \<^verbatim>\<open>bcrypt.compare\<close> rejects a secret that is not a string; the handler's catch
  answers that with 500.
\<close>

definition patch_me :: "env \<Rightarrow> store \<Rightarrow> cookie \<Rightarrow> jsval \<Rightarrow> jsval \<Rightarrow> jsval \<Rightarrow> jsval
    \<Rightarrow> response \<times> claims option \<times> store" where
  "patch_me e st ck name email currentPassword newPassword =
     (case requireAuth ck of
        Inl r \<Rightarrow> (r, None, st)
      | Inr u \<Rightarrow>
          if \<not> truthy currentPassword then (Error 400 ''Mot de passe actuel requis'', None, st)
          else
            (case find (\<lambda>x. u_id x = cl_id u) (users st) of
               None \<Rightarrow> (Error 404 ''Utilisateur introuvable'', None, st)
             | Some me \<Rightarrow>
                 (case currentPassword of
                    JStr pw \<Rightarrow>
                      (if \<not> bcrypt_compare e pw (u_password me)
                       then (Error 401 ''Mot de passe actuel invalide'', None, st)
                       else update_me e st me name email newPassword)
                  | _ \<Rightarrow> (Error 500 ''Server error'', None, st))))"

section \<open>Schema constraints, invariants and the terms of the specification\<close>

text \<open>
  What the database enforces on Product: the primary key and the unique index
  \<^verbatim>\<open>Product_slug_key\<close> of the first migration.
\<close>

definition product_keys :: "store \<Rightarrow> bool" where
  "product_keys st = (distinct (map p_id (products st)) \<and> distinct (map p_slug (products st)))"

text \<open>
  On Cart and CartItem: the primary key of Cart, and the relations of a line to
  its cart and its product (the routes include \<^verbatim>\<open>items\<close> and \<^verbatim>\<open>product\<close>).
\<close>

definition cart_keys :: "store \<Rightarrow> bool" where
  "cart_keys st =
     (distinct (map c_id (carts st))
      \<and> list_all (\<lambda>ci. ci_cartId ci \<in> set (map c_id (carts st))
                      \<and> ci_productId ci \<in> set (map p_id (products st))) (cartItems st))"

text \<open>At most one ACTIVE cart per user; at most one line per (cart, product).\<close>

definition one_active :: "store \<Rightarrow> bool" where
  "one_active st = distinct (map c_userId (filter (\<lambda>c. c_status c = ACTIVE) (carts st)))"




definition active_cart :: "store \<Rightarrow> int \<Rightarrow> cart option" where
  "active_cart st uid = find (\<lambda>c. c_userId c = uid \<and> c_status c = ACTIVE) (carts st)"



text \<open>
  The product a submitted slug names in a store, and the order it prices. The total
  is the sum as \<^verbatim>\<open>reduce\<close> forms it: from 0, in the order of the items, in double
  arithmetic. An order-item and the stock take the quantity cut to an integer.
\<close>

definition slug_product :: "store \<Rightarrow> string \<Rightarrow> product option" where
  "slug_product st s = find (\<lambda>p. p_slug p = s) (products st)"

definition order_line :: "env \<Rightarrow> store \<Rightarrow> int \<Rightarrow> item \<Rightarrow> saleItem" where
  "order_line e st sid i =
     \<lparr>si_saleId = sid, si_productId = p_id (the (slug_product st (i_slug i))),
      si_qty = trunc (norm_qty e (i_qty i)), si_price = p_price (the (slug_product st (i_slug i)))\<rparr>"

definition order_total :: "env \<Rightarrow> store \<Rightarrow> item list \<Rightarrow> rat" where
  "order_total e st its =
     foldl (\<lambda>s i. js_add s (js_mul (p_price (the (slug_product st (i_slug i)))) (norm_qty e (i_qty i))))
       0 its"

definition ordered_qty :: "env \<Rightarrow> item list \<Rightarrow> string \<Rightarrow> int" where
  "ordered_qty e its s =
     sum_list (map (\<lambda>i. trunc (norm_qty e (i_qty i))) (filter (\<lambda>i. i_slug i = s) its))"

text \<open>The same two, read through the \<open>bySlug\<close> table of the handler.\<close>

definition sold_line :: "(string \<Rightarrow> product option) \<Rightarrow> env \<Rightarrow> int \<Rightarrow> item \<Rightarrow> saleItem" where
  "sold_line B e sid i =
     \<lparr>si_saleId = sid, si_productId = p_id (the (B (i_slug i))),
      si_qty = trunc (norm_qty e (i_qty i)), si_price = p_price (the (B (i_slug i)))\<rparr>"

definition sold_qty :: "(string \<Rightarrow> product option) \<Rightarrow> env \<Rightarrow> item list \<Rightarrow> int \<Rightarrow> int" where
  "sold_qty B e its pid =
     sum_list (map (\<lambda>i. trunc (norm_qty e (i_qty i))) (filter (\<lambda>i. p_id (the (B (i_slug i))) = pid) its))"



definition stored_email :: "store \<Rightarrow> int \<Rightarrow> string option" where
  "stored_email st uid = map_option u_email (find (\<lambda>x. u_id x = uid) (users st))"

section \<open>A concrete shop\<close>

text \<open>
  The parameters of the examples. Of the strings the examples send, \<^verbatim>\<open>'5'\<close> and
  \<^verbatim>\<open>'1'\<close> are numbers and \<^verbatim>\<open>'five'\<close> is not; trimming strips the ASCII white space;
  the sequences have skipped nothing.
\<close>

definition is_space :: "char \<Rightarrow> bool" where
  "is_space c = (c \<in> set [CHR '' '', CHR 0x09, CHR 0x0A, CHR 0x0B, CHR 0x0C, CHR 0x0D])"

definition trim :: "string \<Rightarrow> string" where
  "trim s = rev (dropWhile is_space (rev (dropWhile is_space s)))"

definition env0 :: env where
  "env0 = \<lparr>StringToNumber = (\<lambda>s. if s = ''5'' then Num 5 else if s = ''1'' then Num 1 else NaN),
           String_trim = trim, serial_skip = (\<lambda>ids. 0),
           bcrypt_hash = (\<lambda>p. ''$2a$'' @ p),
           bcrypt_compare = (\<lambda>p h. h = ''$2a$'' @ p),
           cart_user_status_unique = True, review_links_required = False\<rparr>"

text \<open>
  The seeded bottle and bulb, two users, an open cart of Alice with three bottles,
  and one published review. The prices 19.9 and 3.9 of the seed are the doubles
  nearest to them.
\<close>

definition price_19_9 :: rat where
  "price_19_9 = 2800676018271027 / 140737488355328"

definition price_3_9 :: rat where
  "price_3_9 = 8782019273372467 / 2251799813685248"

definition alice :: claims where
  "alice = \<lparr>cl_id = 2, cl_email = ''alice@example.com'', cl_admin = False\<rparr>"

definition root :: claims where
  "root = \<lparr>cl_id = 1, cl_email = ''admin@example.com'', cl_admin = True\<rparr>"

definition bottle :: product where
  "bottle = \<lparr>p_id = 5, p_slug = ''eco-bottle'', p_name = ''Eco Bottle'', p_price = price_19_9,
             p_stock = 20\<rparr>"

definition bulb :: product where
  "bulb = \<lparr>p_id = 6, p_slug = ''led-bulb'', p_name = ''LED Bulb'', p_price = price_3_9, p_stock = 7\<rparr>"

definition store0 :: store where
  "store0 =
     \<lparr>users =
        [\<lparr>u_id = 1, u_email = ''admin@example.com'', u_name = Some ''Admin'',
          u_password = ''$2a$admin'', u_admin = True\<rparr>,
         \<lparr>u_id = 2, u_email = ''alice@example.com'', u_name = Some ''Alice'',
          u_password = ''$2a$secret'', u_admin = False\<rparr>],
      products = [bottle, bulb],
      carts = [\<lparr>c_id = 1, c_userId = 2, c_status = ACTIVE\<rparr>],
      cartItems = [\<lparr>ci_cartId = 1, ci_productId = 5, ci_qty = 3\<rparr>],
      sales = [],
      saleItems = [],
      reviews = [\<lparr>r_id = 1, r_name = Some ''Alice'', r_text = ''Great quality'', r_stars = 5,
                  r_published = True\<rparr>]\<rparr>"

text \<open>The shop after Alice has bought two bottles: twice 19.9 is a double.\<close>

definition store1 :: store where
  "store1 =
     store0\<lparr>products := [bottle\<lparr>p_stock := 18\<rparr>, bulb],
            carts := [\<lparr>c_id = 1, c_userId = 2, c_status = CHECKED_OUT\<rparr>],
            sales := [\<lparr>s_id = 1, s_total = 2 * price_19_9, s_userId = 2\<rparr>],
            saleItems := [\<lparr>si_saleId = 1, si_productId = 5, si_qty = 2, si_price = price_19_9\<rparr>]\<rparr>"

text \<open>
  The shop after Alice has bought one bulb and one bottle: the total is the double
  23.799999999999997, the sum of the two prices rounded.
\<close>

definition store2 :: store where
  "store2 =
     store0\<lparr>products := [bottle\<lparr>p_stock := 19\<rparr>, bulb\<lparr>p_stock := 6\<rparr>],
            carts := [\<lparr>c_id = 1, c_userId = 2, c_status = CHECKED_OUT\<rparr>],
            sales := [\<lparr>s_id = 1, s_total = 1674776111428403 / 70368744177664, s_userId = 2\<rparr>],
            saleItems := [\<lparr>si_saleId = 1, si_productId = 6, si_qty = 1, si_price = price_3_9\<rparr>,
                          \<lparr>si_saleId = 1, si_productId = 5, si_qty = 1, si_price = price_19_9\<rparr>]\<rparr>"

text \<open>
  The shop after Alice has bought 2.5 bottles: the total is 49.75, the order-item
  holds 2 and the stock has gone down by 2.
\<close>

definition store3 :: store where
  "store3 =
     store0\<lparr>products := [bottle\<lparr>p_stock := 18\<rparr>, bulb],
            carts := [\<lparr>c_id = 1, c_userId = 2, c_status = CHECKED_OUT\<rparr>],
            sales := [\<lparr>s_id = 1, s_total = 199 / 4, s_userId = 2\<rparr>],
            saleItems := [\<lparr>si_saleId = 1, si_productId = 5, si_qty = 2, si_price = price_19_9\<rparr>]\<rparr>"




text \<open>A number of stars that the routes accept: a number from 1 to 5.\<close>

definition stars_in_range :: "jsnum \<Rightarrow> bool" where
  "stars_in_range s = (case s of NaN \<Rightarrow> False | Num r \<Rightarrow> 1 \<le> r \<and> r \<le> 5)"

text \<open>Alice's row after she has changed her email, her name, her password.\<close>

definition alice_row :: user where
  "alice_row = \<lparr>u_id = 2, u_email = ''alice@example.com'', u_name = Some ''Alice'',
                u_password = ''$2a$secret'', u_admin = False\<rparr>"

definition with_alice :: "user \<Rightarrow> store" where
  "with_alice row = store0\<lparr>users := [hd (users store0), row]\<rparr>"

section \<open>Arithmetic on doubles: lemmas\<close>

lemma bitlen_powi:
  assumes "0 < (a::int)"
  shows "(2::rat) powi (bitlen a - 1) \<le> rat_of_int a" and "rat_of_int a < 2 powi bitlen a"
proof -
  from bitlen_bounds [OF assms] have lo: "2 ^ nat (bitlen a - 1) \<le> a" and hi: "a < 2 ^ nat (bitlen a)"
    by auto
  have "bitlen a \<noteq> 0" using assms by (simp add: bitlen_eq_zero_iff)
  then have pos: "1 \<le> bitlen a" using bitlen_nonneg [of a] by linarith
  have "(2::rat) powi (bitlen a - 1) = 2 ^ nat (bitlen a - 1)" using pos by (simp add: power_int_def)
  also have "\<dots> = rat_of_int (2 ^ nat (bitlen a - 1))" by simp
  also have "\<dots> \<le> rat_of_int a" using lo by (simp only: of_int_le_iff)
  finally show "(2::rat) powi (bitlen a - 1) \<le> rat_of_int a" .
  have "rat_of_int a < rat_of_int (2 ^ nat (bitlen a))" using hi by (simp only: of_int_less_iff)
  also have "\<dots> = 2 ^ nat (bitlen a)" by simp
  also have "\<dots> = (2::rat) powi bitlen a" using pos by (simp add: power_int_def)
  finally show "rat_of_int a < 2 powi bitlen a" .
qed

lemma ilog2_bounds:
  assumes "0 < x"
  shows "2 powi (ilog2 x) \<le> x" and "x < 2 powi (ilog2 x + 1)"
proof -
  obtain a b where q: "quotient_of x = (a, b)" by (cases "quotient_of x")
  have b: "0 < b" using quotient_of_denom_pos [OF q] .
  have x: "x = rat_of_int a / rat_of_int b" using quotient_of_div [OF q] .
  have a: "0 < a" using assms b x by (simp add: zero_less_divide_iff)
  let ?k = "bitlen a - bitlen b"
  have rb: "0 < rat_of_int b" using b by simp
  have lo: "2 powi (?k - 1) \<le> x"
  proof -
    have "(2::rat) powi (?k - 1) = 2 powi (bitlen a - 1) / 2 powi bitlen b"
      by (simp add: power_int_diff)
    also have "\<dots> \<le> rat_of_int a / 2 powi bitlen b"
      using bitlen_powi(1) [OF a] by (simp add: divide_right_mono)
    also have "\<dots> \<le> rat_of_int a / rat_of_int b"
      using bitlen_powi(2) [OF b] a rb by (simp add: frac_le)
    finally show ?thesis using x by simp
  qed
  have hi: "x < 2 powi (?k + 1)"
  proof -
    have "x = rat_of_int a / rat_of_int b" by (rule x)
    also have "\<dots> < 2 powi bitlen a / rat_of_int b"
      using bitlen_powi(2) [OF a] rb by (simp add: divide_strict_right_mono)
    also have "\<dots> \<le> 2 powi bitlen a / 2 powi (bitlen b - 1)"
      using bitlen_powi(1) [OF b] by (simp add: frac_le)
    also have "\<dots> = 2 powi (bitlen a - (bitlen b - 1))" by (rule power_int_diff [symmetric]) simp
    also have "bitlen a - (bitlen b - 1) = ?k + 1" by simp
    finally show ?thesis .
  qed
  have il: "ilog2 x = (if 2 powi ?k \<le> x then ?k else ?k - 1)"
    by (simp add: ilog2_def q Let_def)
  show "2 powi (ilog2 x) \<le> x" using il lo by auto
  show "x < 2 powi (ilog2 x + 1)" using il hi by (auto simp: not_le)
qed

lemma powi2_less_imp: "(2::rat) powi a < 2 powi b \<Longrightarrow> a < b"
  by (rule ccontr) (simp add: not_less power_int_increasing leD)

lemma ilog2_unique:
  assumes "2 powi k \<le> x" and "x < 2 powi (k + 1)"
  shows "ilog2 x = k"
proof -
  have "(0::rat) < 2 powi k" by simp
  then have pos: "0 < x" using assms(1) by linarith
  from ilog2_bounds [OF pos] assms
  have "(2::rat) powi (ilog2 x) < 2 powi (k + 1)" and "(2::rat) powi k < 2 powi (ilog2 x + 1)"
    by auto
  then have "ilog2 x < k + 1" and "k < ilog2 x + 1" by (auto dest: powi2_less_imp)
  then show ?thesis by simp
qed

lemma round_even_near:
  assumes "\<bar>m - rat_of_int n\<bar> < 1 / 2"
  shows "round_even m = n"
proof (cases "rat_of_int n \<le> m")
  case True
  then have "\<lfloor>m\<rfloor> = n" using assms by (intro floor_unique) auto
  then show ?thesis using assms True by (simp add: round_even_def Let_def)
next
  case False
  then have f: "\<lfloor>m\<rfloor> = n - 1" using assms by (intro floor_unique) auto
  have "1 / 2 < m - rat_of_int (n - 1)" using assms False by auto
  then show ?thesis using f by (simp add: round_even_def Let_def)
qed

text \<open>
  How \<open>fl\<close> is evaluated: \<open>fl x\<close> is \<open>n * 2 powi e\<close> when \<open>x\<close> lies in the binade of
  exponent \<open>e + 52\<close> and \<open>n\<close> is the integer within a half of \<open>x / 2 powi e\<close>.
\<close>

lemma fl_nearest:
  assumes lo: "2 ^ 52 * 2 powi e \<le> x" and hi: "x < 2 ^ 53 * 2 powi e"
    and near: "\<bar>x / 2 powi e - rat_of_int n\<bar> < 1 / 2"
  shows "fl x = rat_of_int n * 2 powi e"
proof -
  have p: "(0::rat) < 2 powi e" by simp
  have "(0::rat) < 2 ^ 52 * 2 powi e" by simp
  then have pos: "0 < x" using lo by linarith
  have "(2::rat) powi (e + 52) = 2 ^ 52 * 2 powi e" by (simp add: power_int_add)
  moreover have "(2::rat) powi (e + 52 + 1) = 2 ^ 53 * 2 powi e" by (simp add: power_int_add)
  ultimately have "ilog2 x = e + 52" using lo hi by (intro ilog2_unique) auto
  then show ?thesis using pos near by (simp add: fl_def Let_def round_even_near)
qed








lemma trunc_floor: "0 \<le> r \<Longrightarrow> trunc r = \<lfloor>r\<rfloor>"
  by (simp add: trunc_def)

lemma prisma_Int_Some: "prisma_Int r = Some n \<Longrightarrow> n = trunc r"
  by (auto simp: prisma_Int_def split: if_splits)



lemma round_even_tie:
  assumes "m = rat_of_int f + 1 / 2"
  shows "round_even m = (if even f then f else f + 1)"
proof -
  have "\<lfloor>m\<rfloor> = f" unfolding assms by (intro floor_unique) auto
  then show ?thesis using assms by (simp add: round_even_def Let_def)
qed

lemma fl_tie:
  assumes lo: "2 ^ 52 * 2 powi e \<le> x" and hi: "x < 2 ^ 53 * 2 powi e"
    and tie: "x / 2 powi e = rat_of_int f + 1 / 2"
  shows "fl x = rat_of_int (if even f then f else f + 1) * 2 powi e"
proof -
  have p: "(0::rat) < 2 powi e" by simp
  have "(0::rat) < 2 ^ 52 * 2 powi e" by simp
  then have pos: "0 < x" using lo by linarith
  have "(2::rat) powi (e + 52) = 2 ^ 52 * 2 powi e" by (simp add: power_int_add)
  moreover have "(2::rat) powi (e + 52 + 1) = 2 ^ 53 * 2 powi e" by (simp add: power_int_add)
  ultimately have "ilog2 x = e + 52" using lo hi by (intro ilog2_unique) auto
  then show ?thesis using pos round_even_tie [OF tie] by (simp add: fl_def Let_def)
qed

lemma js_add_0: "js_add 0 x = fl x"
  by (simp add: js_add_def)

lemma js_mul_1: "js_mul x 1 = fl x"
  by (simp add: js_mul_def)

text \<open>The two prices are the doubles that the decimals 19.9 and 3.9 denote.\<close>

lemma price_19_9_nearest: "fl (199 / 10) = price_19_9"
proof -
  have "fl (199 / 10) = rat_of_int 5601352036542054 * 2 powi (- 48)"
    by (rule fl_nearest) simp_all
  then show ?thesis by (simp add: price_19_9_def)
qed

lemma price_3_9_nearest: "fl (39 / 10) = price_3_9"
proof -
  have "fl (39 / 10) = rat_of_int 8782019273372467 * 2 powi (- 51)"
    by (rule fl_nearest) simp_all
  then show ?thesis by (simp add: price_3_9_def)
qed

lemma fl_price_19_9: "fl price_19_9 = price_19_9"
proof -
  have "fl price_19_9 = rat_of_int 5601352036542054 * 2 powi (- 48)"
    unfolding price_19_9_def by (rule fl_nearest) simp_all
  then show ?thesis by (simp add: price_19_9_def)
qed

lemma fl_price_3_9: "fl price_3_9 = price_3_9"
proof -
  have "fl price_3_9 = rat_of_int 8782019273372467 * 2 powi (- 51)"
    unfolding price_3_9_def by (rule fl_nearest) simp_all
  then show ?thesis by (simp add: price_3_9_def)
qed

text \<open>19.9 * 2 is 39.8, a double.\<close>

lemma two_bottles: "js_add 0 (js_mul price_19_9 2) = 2 * price_19_9"
proof -
  have "fl (price_19_9 * 2) = rat_of_int 5601352036542054 * 2 powi (- 47)"
    unfolding price_19_9_def by (rule fl_nearest) simp_all
  then have a: "fl (price_19_9 * 2) = 2 * price_19_9" by (simp add: price_19_9_def)
  have "fl (2 * price_19_9) = rat_of_int 5601352036542054 * 2 powi (- 47)"
    unfolding price_19_9_def by (rule fl_nearest) simp_all
  then have "fl (2 * price_19_9) = 2 * price_19_9" by (simp add: price_19_9_def)
  then show ?thesis using a by (simp add: js_add_def js_mul_def)
qed

text \<open>3.9 + 19.9 is 23.799999999999997: the exact sum of the two doubles is rounded.\<close>

lemma bulb_and_bottle:
  "js_add (js_add 0 (js_mul price_3_9 1)) (js_mul price_19_9 1) = 1674776111428403 / 70368744177664"
proof -
  have "fl (price_3_9 + price_19_9) = rat_of_int 6699104445713612 * 2 powi (- 48)"
    unfolding price_3_9_def price_19_9_def by (rule fl_nearest) simp_all
  then have "js_add price_3_9 price_19_9 = 1674776111428403 / 70368744177664"
    by (simp add: js_add_def)
  then show ?thesis by (simp add: js_add_0 js_mul_1 fl_price_3_9 fl_price_19_9)
qed

text \<open>
  19.9 * 2.5 is 49.75: the exact product of the two doubles lies half-way between
  two doubles and goes to the even one.
\<close>

lemma bottles_2_5: "js_add 0 (js_mul price_19_9 (5 / 2)) = 199 / 4"
proof -
  have "fl (price_19_9 * (5 / 2))
      = rat_of_int (if even (7001690045677567::int) then 7001690045677567 else 7001690045677567 + 1)
          * 2 powi (- 47)"
    unfolding price_19_9_def by (rule fl_tie) simp_all
  then have a: "js_mul price_19_9 (5 / 2) = 199 / 4" by (simp add: js_mul_def)
  have "fl (199 / 4) = rat_of_int 7001690045677568 * 2 powi (- 47)"
    by (rule fl_nearest) simp_all
  then have f: "fl (199 / 4) = 199 / 4" by simp
  show ?thesis unfolding js_add_0 a by (rule f)
qed



lemma trunc_5_2: "trunc (5 / 2) = 2"
  by (simp add: trunc_def floor_eq_iff)


section \<open>Checkout: lemmas\<close>

lemma foldr_max_above: "i \<in> set ids \<Longrightarrow> i \<le> foldr max ids (0::int)"
  by (induction ids) auto

lemma fresh_id_above: "i \<in> set ids \<Longrightarrow> i < fresh_id e ids"
  unfolding fresh_id_def using foldr_max_above [of i ids] by simp

lemma findMany_count:
  assumes d: "distinct (map p_slug ps)"
    and len: "length (filter (\<lambda>p. p_slug p \<in> set slugs) ps) = length slugs"
  shows "distinct slugs \<and> set slugs \<subseteq> p_slug ` set ps"
proof -
  let ?F = "filter (\<lambda>p. p_slug p \<in> set slugs) ps"
  have dF: "distinct (map p_slug ?F)" using d by (simp add: distinct_map_filter)
  have sub: "set (map p_slug ?F) \<subseteq> set slugs" by auto
  have "length slugs = card (set (map p_slug ?F))"
    using dF len by (metis distinct_card length_map)
  also have "\<dots> \<le> card (set slugs)" using sub by (simp add: card_mono)
  finally have c: "length slugs \<le> card (set slugs)" .
  then have ds: "distinct slugs" by (simp add: card_distinct card_length le_antisym)
  have "card (set (map p_slug ?F)) = card (set slugs)"
    using dF len ds by (metis distinct_card length_map)
  then have "set (map p_slug ?F) = set slugs" using sub by (simp add: card_subset_eq)
  then show ?thesis using ds by auto
qed

lemma findMany_dup:
  assumes d: "distinct (map p_slug ps)" and nd: "\<not> distinct slugs"
  shows "length (filter (\<lambda>p. p_slug p \<in> set slugs) ps) \<noteq> length slugs"
  using findMany_count [OF d] nd by blast

lemma bySlug_lookup:
  assumes d: "distinct (map p_slug ps)" and p: "p \<in> set ps" and s: "p_slug p \<in> set slugs"
  shows "fromEntries (map (\<lambda>p. (p_slug p, p)) (filter (\<lambda>p. p_slug p \<in> set slugs) ps)) (p_slug p) = Some p"
proof -
  let ?es = "map (\<lambda>p. (p_slug p, p)) (filter (\<lambda>p. p_slug p \<in> set slugs) ps)"
  have "map fst ?es = map p_slug (filter (\<lambda>p. p_slug p \<in> set slugs) ps)" by (simp add: comp_def)
  then have dd: "distinct (map fst (rev ?es))" using d by (simp add: distinct_map_filter comp_def rev_map[symmetric])
  have "(p_slug p, p) \<in> set (rev ?es)" using p s by auto
  then show ?thesis unfolding fromEntries_def using dd by (rule_tac map_of_is_SomeI)
qed

lemma find_by_slug:
  assumes d: "distinct (map p_slug ps)" and p: "p \<in> set ps"
  shows "find (\<lambda>x. p_slug x = p_slug p) ps = Some p"
  using assms by (induction ps) (auto simp: image_iff)

lemma check_stock_400:
  assumes "\<forall>i\<in>set its. B (i_slug i) \<noteq> None"
    and "\<exists>i\<in>set its. \<exists>p. B (i_slug i) = Some p \<and> rat_of_int (p_stock p) < norm_qty e (i_qty i)"
  shows "\<exists>msg. check_stock e B its = Some (Error 400 msg)"
  using assms by (induction its) (auto split: option.splits)

lemma check_stock_None:
  assumes "check_stock e B its = None" and "i \<in> set its"
  shows "\<exists>p. B (i_slug i) = Some p \<and> norm_qty e (i_qty i) \<le> rat_of_int (p_stock p)"
  using assms by (induction its) (auto split: option.splits if_splits)

lemma tx_items_Some:
  "tx_items e B sid st its = Some st' \<Longrightarrow>
     (\<forall>i\<in>set its. B (i_slug i) \<noteq> None \<and> prisma_Int (norm_qty e (i_qty i)) \<noteq> None) \<and>
     st' = st\<lparr>saleItems := saleItems st @ map (sold_line B e sid) its,
              products := map (\<lambda>p. p\<lparr>p_stock := p_stock p - sold_qty B e its (p_id p)\<rparr>) (products st)\<rparr>"
proof (induction its arbitrary: st)
  case Nil
  then show ?case by (simp add: sold_qty_def)
next
  case (Cons i its)
  from Cons.prems obtain p n st1 st2 where B: "B (i_slug i) = Some p"
    and n: "prisma_Int (norm_qty e (i_qty i)) = Some n"
    and s1: "saleItem_create st sid (p_id p) (norm_qty e (i_qty i)) (p_price p) = Some st1"
    and s2: "product_decrement st1 (p_id p) (norm_qty e (i_qty i)) = Some st2"
    and rest: "tx_items e B sid st2 its = Some st'"
    by (auto simp: saleItem_create_def split: option.splits)
  have nf: "n = trunc (norm_qty e (i_qty i))" using prisma_Int_Some [OF n] .
  have st1: "st1 = st\<lparr>saleItems := saleItems st @ [sold_line B e sid i]\<rparr>"
    using s1 n B nf by (auto simp: saleItem_create_def sold_line_def split: if_splits)
  have st2: "st2 = st1\<lparr>products :=
      map (\<lambda>q. if p_id q = p_id p then q\<lparr>p_stock := p_stock q - n\<rparr> else q) (products st1)\<rparr>"
    using s2 n by (auto simp: product_decrement_def split: if_splits)
  note IH = Cons.IH [OF rest]
  have prods: "map (\<lambda>q. q\<lparr>p_stock := p_stock q - sold_qty B e its (p_id q)\<rparr>) (products st2)
      = map (\<lambda>q. q\<lparr>p_stock := p_stock q - sold_qty B e (i # its) (p_id q)\<rparr>) (products st)"
    unfolding st2 st1 using B nf by (auto simp: sold_qty_def)
  show ?case
  proof
    show "\<forall>j\<in>set (i # its). B (i_slug j) \<noteq> None \<and> prisma_Int (norm_qty e (i_qty j)) \<noteq> None"
      using IH B n by auto
    have "st' = st2\<lparr>saleItems := saleItems st2 @ map (sold_line B e sid) its,
        products := map (\<lambda>q. q\<lparr>p_stock := p_stock q - sold_qty B e its (p_id q)\<rparr>) (products st2)\<rparr>"
      using IH by blast
    then show "st' = st\<lparr>saleItems := saleItems st @ map (sold_line B e sid) (i # its),
        products := map (\<lambda>q. q\<lparr>p_stock := p_stock q - sold_qty B e (i # its) (p_id q)\<rparr>) (products st)\<rparr>"
      unfolding prods unfolding st2 st1 by simp
  qed
qed

lemma reduce_total_Some:
  "reduce_total e B s its = Some t \<Longrightarrow>
     t = foldl (\<lambda>s i. js_add s (js_mul (p_price (the (B (i_slug i)))) (norm_qty e (i_qty i)))) s its"
proof (induction its arbitrary: s)
  case Nil
  then show ?case by simp
next
  case (Cons i its)
  from Cons.prems obtain p where p: "B (i_slug i) = Some p"
    and r: "reduce_total e B (js_add s (js_mul (p_price p) (norm_qty e (i_qty i)))) its = Some t"
    by (auto split: option.splits)
  from Cons.IH [OF r] p show ?case by simp
qed

lemma foldl_cong_set:
  "(\<And>s x. x \<in> set xs \<Longrightarrow> f s x = g s x) \<Longrightarrow> foldl f a xs = foldl g a xs"
  by (induction xs arbitrary: a) auto

lemma requireAuth_Inl: "requireAuth ck = Inl r \<Longrightarrow> \<exists>m. r = Error 401 m"
  by (cases ck) auto

lemma check_stock_Some: "check_stock e B its = Some r \<Longrightarrow> \<exists>c m. r = Error c m"
  by (induction its) (auto split: option.splits if_splits)

lemma checkout_cases:
  "(\<exists>oid st'. checkout e st ck body = (CheckoutOk oid, st')) \<or> snd (checkout e st ck body) = st"
  by (auto simp: checkout_def Let_def split: sum.splits option.splits dest: requireAuth_Inl)

lemma checkout_success:
  assumes wf: "product_keys st" and ok: "checkout e st ck body = (CheckoutOk oid, st')"
  shows "\<exists>u. requireAuth ck = Inr u \<and> cl_id u \<in> set (map u_id (users st))
      \<and> req_items body \<noteq> [] \<and> distinct (map i_slug (req_items body))
      \<and> (\<forall>i\<in>set (req_items body). \<exists>p\<in>set (products st). slug_product st (i_slug i) = Some p
            \<and> p_slug p = i_slug i
            \<and> norm_qty e (i_qty i) \<le> rat_of_int (p_stock p))
      \<and> oid = fresh_id e (map s_id (sales st))
      \<and> st' = st\<lparr>sales := sales st @
                  [\<lparr>s_id = oid, s_total = order_total e st (req_items body), s_userId = cl_id u\<rparr>],
                saleItems := saleItems st @ map (order_line e st oid) (req_items body),
                products := map (\<lambda>p. p\<lparr>p_stock := p_stock p - ordered_qty e (req_items body) (p_slug p)\<rparr>)
                              (products st),
                carts := map (close_cart (cl_id u)) (carts st)\<rparr>"
proof -
  let ?items = "req_items body"
  let ?slugs = "map i_slug ?items"
  let ?B = "fromEntries (map (\<lambda>p. (p_slug p, p)) (findMany_slug_in st ?slugs))"
  have ds: "distinct (map p_slug (products st))" and di: "distinct (map p_id (products st))"
    using wf by (auto simp: product_keys_def)
  from ok obtain u where auth: "requireAuth ck = Inr u"
    by (auto simp: checkout_def split: sum.splits dest: requireAuth_Inl)
  from ok auth have ne: "?items \<noteq> []"
    by (auto simp: checkout_def Let_def split: if_splits)
  from ok auth ne have len: "length (findMany_slug_in st ?slugs) = length ?slugs"
    by (auto simp: checkout_def Let_def split: if_splits)
  from ok auth ne len have cs: "check_stock e ?B ?items = None"
    by (auto simp: checkout_def Let_def split: option.splits dest: check_stock_Some)
  from ok auth ne len cs obtain tot where rt: "reduce_total e ?B 0 ?items = Some tot"
    by (auto simp: checkout_def Let_def split: option.splits)
  from ok auth ne len cs rt obtain sl where tr: "transaction e st ?B tot (cl_id u) ?items = Some (sl, st')"
    and oid: "oid = s_id sl"
    by (auto simp: checkout_def Let_def split: option.splits)
  have cnt: "distinct ?slugs \<and> set ?slugs \<subseteq> p_slug ` set (products st)"
    using len unfolding findMany_slug_in_def using findMany_count [OF ds] by blast
  have look: "?B (p_slug p) = Some p" if "p \<in> set (products st)" "p_slug p \<in> set ?slugs" for p
    unfolding findMany_slug_in_def using bySlug_lookup [OF ds that] .
  have res: "\<exists>p\<in>set (products st). p_slug p = i_slug i \<and> ?B (i_slug i) = Some p
      \<and> slug_product st (i_slug i) = Some p" if i: "i \<in> set ?items" for i
  proof -
    from i cnt have "i_slug i \<in> p_slug ` set (products st)" by auto
    then obtain p where p: "p \<in> set (products st)" "p_slug p = i_slug i" by auto
    then have "?B (i_slug i) = Some p" using look [of p] i by auto
    moreover have "slug_product st (i_slug i) = Some p"
      unfolding slug_product_def using find_by_slug [OF ds p(1)] p(2) by simp
    ultimately show ?thesis using p by blast
  qed
  have same: "the (?B (i_slug i)) = the (slug_product st (i_slug i))" if "i \<in> set ?items" for i
    using res [OF that] by auto
  from tr obtain st1 st2 where sc: "sale_create e st tot (cl_id u) = Some (sl, st1)"
    and ti: "tx_items e ?B (s_id sl) st1 ?items = Some st2"
    and cu: "cart_updateMany e st2 (cl_id u) = Some st'"
    by (auto simp: transaction_def split: option.splits prod.splits)
  from sc have usr: "cl_id u \<in> set (map u_id (users st))"
    and sl: "sl = \<lparr>s_id = fresh_id e (map s_id (sales st)), s_total = tot, s_userId = cl_id u\<rparr>"
    and st1: "st1 = st\<lparr>sales := sales st @ [sl]\<rparr>"
    by (auto simp: sale_create_def Let_def split: if_splits)
  note T = tx_items_Some [OF ti]
  from cu have st': "st' = st2\<lparr>carts := map (close_cart (cl_id u)) (carts st2)\<rparr>"
    by (auto simp: cart_updateMany_def Let_def split: if_splits)
  have tot: "tot = order_total e st ?items"
    unfolding reduce_total_Some [OF rt] order_total_def
    by (rule foldl_cong_set) (simp add: same)
  have lines: "map (sold_line ?B e oid) ?items = map (order_line e st oid) ?items"
    using same by (simp add: sold_line_def order_line_def)
  have qty: "sold_qty ?B e ?items (p_id p) = ordered_qty e ?items (p_slug p)"
    if p: "p \<in> set (products st)" for p
  proof -
    have E: "(p_id (the (?B (i_slug i))) = p_id p) = (i_slug i = p_slug p)" if i: "i \<in> set ?items" for i
    proof -
      from res [OF i] obtain p' where p': "p' \<in> set (products st)" "p_slug p' = i_slug i"
        "?B (i_slug i) = Some p'" by blast
      have "p_id p' = p_id p \<longleftrightarrow> p' = p" using di p p'(1) by (auto simp: distinct_map inj_on_def)
      moreover have "p_slug p' = p_slug p \<longleftrightarrow> p' = p" using ds p p'(1) by (auto simp: distinct_map inj_on_def)
      ultimately show ?thesis using p' by auto
    qed
    have "filter (\<lambda>i. p_id (the (?B (i_slug i))) = p_id p) ?items
        = filter (\<lambda>i. i_slug i = p_slug p) ?items"
      by (rule filter_cong) (simp_all add: E)
    then show ?thesis unfolding sold_qty_def ordered_qty_def by simp
  qed
  have prods: "map (\<lambda>p. p\<lparr>p_stock := p_stock p - sold_qty ?B e ?items (p_id p)\<rparr>) (products st)
      = map (\<lambda>p. p\<lparr>p_stock := p_stock p - ordered_qty e ?items (p_slug p)\<rparr>) (products st)"
    using qty by simp
  have items_ok: "\<forall>i\<in>set ?items. \<exists>p\<in>set (products st). slug_product st (i_slug i) = Some p
            \<and> p_slug p = i_slug i
            \<and> norm_qty e (i_qty i) \<le> rat_of_int (p_stock p)"
  proof
    fix i assume i: "i \<in> set ?items"
    from res [OF i] obtain p where p: "p \<in> set (products st)" "p_slug p = i_slug i"
      "?B (i_slug i) = Some p" "slug_product st (i_slug i) = Some p" by blast
    from check_stock_None [OF cs i] p(3) have le: "norm_qty e (i_qty i) \<le> rat_of_int (p_stock p)" by simp
    with p le show "\<exists>p\<in>set (products st). slug_product st (i_slug i) = Some p
            \<and> p_slug p = i_slug i
            \<and> norm_qty e (i_qty i) \<le> rat_of_int (p_stock p)" by blast
  qed
  have oid': "oid = fresh_id e (map s_id (sales st))" using oid sl by simp
  have final: "st' = st\<lparr>sales := sales st @
                  [\<lparr>s_id = oid, s_total = order_total e st ?items, s_userId = cl_id u\<rparr>],
                saleItems := saleItems st @ map (order_line e st oid) ?items,
                products := map (\<lambda>p. p\<lparr>p_stock := p_stock p - ordered_qty e ?items (p_slug p)\<rparr>)
                              (products st),
                carts := map (close_cart (cl_id u)) (carts st)\<rparr>"
  proof -
    from T have "st2 = st1\<lparr>saleItems := saleItems st1 @ map (sold_line ?B e (s_id sl)) ?items,
        products := map (\<lambda>p. p\<lparr>p_stock := p_stock p - sold_qty ?B e ?items (p_id p)\<rparr>) (products st1)\<rparr>"
      by blast
    then have "st2 = st1\<lparr>saleItems := saleItems st1 @ map (order_line e st oid) ?items,
        products := map (\<lambda>p. p\<lparr>p_stock := p_stock p - ordered_qty e ?items (p_slug p)\<rparr>) (products st)\<rparr>"
      using lines prods oid st1 by simp
    then show ?thesis unfolding st' unfolding st1 sl tot oid' by simp
  qed
  show ?thesis using auth usr ne cnt items_ok oid' final by blast
qed

lemmas shop_defs = env0_def store0_def store1_def alice_def root_def bottle_def bulb_def

lemmas checkout_defs = checkout_def req_items_def findMany_slug_in_def fromEntries_def
  transaction_def sale_create_def saleItem_create_def product_decrement_def cart_updateMany_def
  close_cart_def cart_unique_ok_def norm_qty_def prisma_Int_def trunc_def fresh_id_def

lemma checkout_example:
  "checkout env0 store0 (ValidToken alice) (Some [\<lparr>i_slug = ''eco-bottle'', i_qty = JNum 2\<rparr>])
     = (CheckoutOk 1, store1)"
  by (simp add: shop_defs checkout_defs Let_def two_bottles)

text \<open>One bulb and one bottle: the persisted total is the rounded sum.\<close>

lemma checkout_two_items:
  "checkout env0 store0 (ValidToken alice)
       (Some [\<lparr>i_slug = ''led-bulb'', i_qty = JNum 1\<rparr>, \<lparr>i_slug = ''eco-bottle'', i_qty = JNum 1\<rparr>])
     = (CheckoutOk 1, store2)"
  by (simp add: shop_defs store2_def checkout_defs Let_def bulb_and_bottle)

lemma floor_five_halves: "\<lfloor>5 / 2 :: rat\<rfloor> = 2"
  by (simp add: floor_eq_iff)

text \<open>
  A fractional quantity passes the stock check and prices the total; the integer
  columns take it with the fraction cut off.
\<close>

lemma checkout_fraction:
  "checkout env0 store0 (ValidToken alice) (Some [\<lparr>i_slug = ''eco-bottle'', i_qty = JNum (5 / 2)\<rparr>])
     = (CheckoutOk 1, store3)"
  by (simp add: shop_defs store3_def checkout_defs Let_def bottles_2_5 floor_five_halves)

lemma product_keys_store0: "product_keys store0"
  by (simp add: product_keys_def shop_defs)

lemma filter_distinct_key:
  "distinct (map f xs) \<Longrightarrow>
     filter (\<lambda>x. f x = a) xs = [] \<or> (\<exists>x\<in>set xs. f x = a \<and> filter (\<lambda>x. f x = a) xs = [x])"
proof (induction xs)
  case Nil
  then show ?case by simp
next
  case (Cons y ys)
  show ?case
  proof (cases "f y = a")
    case True
    then have "filter (\<lambda>x. f x = a) ys = []" using True Cons.prems by (auto simp: filter_empty_conv) (metis imageI)
    then show ?thesis using True by simp
  next
    case False
    then show ?thesis using Cons by auto
  qed
qed

section \<open>Checkout: results\<close>

text \<open>
  Claim C1. A checkout by an authenticated caller that fails validation (no items, a
  slug that names no product, or a quantity above the product's stock) is answered
  with status 400 and leaves the whole store as it was.
\<close>

theorem checkout_validation_failure_unchanged:
  assumes auth: "requireAuth ck = Inr u" and wf: "distinct (map p_slug (products st))"
    and bad: "req_items body = []
      \<or> (\<exists>i\<in>set (req_items body). i_slug i \<notin> p_slug ` set (products st))
      \<or> (\<exists>i\<in>set (req_items body). \<exists>p\<in>set (products st). p_slug p = i_slug i
            \<and> rat_of_int (p_stock p) < norm_qty e (i_qty i))"
  shows "\<exists>msg. checkout e st ck body = (Error 400 msg, st)"
proof (cases "req_items body = []")
  case True
  then show ?thesis using auth by (simp add: checkout_def)
next
  case ne: False
  let ?items = "req_items body"
  let ?slugs = "map i_slug ?items"
  let ?B = "fromEntries (map (\<lambda>p. (p_slug p, p)) (findMany_slug_in st ?slugs))"
  show ?thesis
  proof (cases "length (findMany_slug_in st ?slugs) = length ?slugs")
    case False
    then show ?thesis using auth ne by (simp add: checkout_def Let_def)
  next
    case len: True
    then have cnt: "distinct ?slugs \<and> set ?slugs \<subseteq> p_slug ` set (products st)"
      unfolding findMany_slug_in_def using findMany_count [OF wf] by blast
    have look: "?B (p_slug p) = Some p" if "p \<in> set (products st)" "p_slug p \<in> set ?slugs" for p
      unfolding findMany_slug_in_def using bySlug_lookup [OF wf that] .
    have all: "\<forall>i\<in>set ?items. ?B (i_slug i) \<noteq> None"
    proof
      fix i assume i: "i \<in> set ?items"
      then have "i_slug i \<in> p_slug ` set (products st)" using cnt by auto
      then obtain p where "p \<in> set (products st)" "p_slug p = i_slug i" by auto
      then show "?B (i_slug i) \<noteq> None" using look [of p] i by auto
    qed
    from bad ne cnt obtain i p where i: "i \<in> set ?items" and p: "p \<in> set (products st)"
      and sl: "p_slug p = i_slug i" and short: "rat_of_int (p_stock p) < norm_qty e (i_qty i)"
      by auto
    have "?B (i_slug i) = Some p" using look [of p] p sl i by auto
    then have "\<exists>i\<in>set ?items. \<exists>p. ?B (i_slug i) = Some p
        \<and> rat_of_int (p_stock p) < norm_qty e (i_qty i)"
      using i short by blast
    from check_stock_400 [OF all this] obtain msg
      where "check_stock e ?B ?items = Some (Error 400 msg)" by blast
    then show ?thesis using auth ne len by (simp add: checkout_def Let_def)
  qed
qed

theorem checkout_validation_failure_unchanged_witness:
  "requireAuth (ValidToken alice) = Inr alice \<and> distinct (map p_slug (products store0))
   \<and> (\<exists>msg. checkout env0 store0 (ValidToken alice) None = (Error 400 msg, store0))
   \<and> (\<exists>msg. checkout env0 store0 (ValidToken alice)
          (Some [\<lparr>i_slug = ''led-bulb'', i_qty = JNum 1\<rparr>, \<lparr>i_slug = ''no-such'', i_qty = JNum 1\<rparr>])
        = (Error 400 msg, store0))
   \<and> (\<exists>msg. checkout env0 store0 (ValidToken alice)
          (Some [\<lparr>i_slug = ''led-bulb'', i_qty = JNum 1\<rparr>, \<lparr>i_slug = ''eco-bottle'', i_qty = JNum 21\<rparr>])
        = (Error 400 msg, store0))"
proof -
  have a: "requireAuth (ValidToken alice) = Inr alice" by simp
  have k: "distinct (map p_slug (products store0))" by (simp add: shop_defs)
  show ?thesis
    using a k
      checkout_validation_failure_unchanged [OF a k, of None env0]
      checkout_validation_failure_unchanged [OF a k,
        of "Some [\<lparr>i_slug = ''led-bulb'', i_qty = JNum 1\<rparr>, \<lparr>i_slug = ''no-such'', i_qty = JNum 1\<rparr>]" env0]
      checkout_validation_failure_unchanged [OF a k,
        of "Some [\<lparr>i_slug = ''led-bulb'', i_qty = JNum 1\<rparr>, \<lparr>i_slug = ''eco-bottle'', i_qty = JNum 21\<rparr>]" env0]
    by (simp add: req_items_def shop_defs norm_qty_def)
qed

text \<open>
  Claim C10. A checkout whose items name the same slug twice is answered with
  400 \<^verbatim>\<open>Unknown product in cart\<close>, whether or not the slugs exist: the handler
  compares the number of products found with the number of items.
\<close>

theorem checkout_duplicate_slug_rejected:
  assumes "requireAuth ck = Inr u" and "distinct (map p_slug (products st))"
    and "\<not> distinct (map i_slug items)"
  shows "checkout e st ck (Some items) = (Error 400 ''Unknown product in cart'', st)"
proof -
  have ne: "items \<noteq> []" using assms(3) by auto
  have "length (findMany_slug_in st (map i_slug items)) \<noteq> length (map i_slug items)"
    unfolding findMany_slug_in_def using findMany_dup [OF assms(2) assms(3)] .
  then show ?thesis using assms(1) ne by (simp add: checkout_def Let_def req_items_def)
qed

theorem checkout_duplicate_slug_rejected_witness:
  "requireAuth (ValidToken alice) = Inr alice \<and> distinct (map p_slug (products store0))
   \<and> \<not> distinct (map i_slug [\<lparr>i_slug = ''eco-bottle'', i_qty = JNum 1\<rparr>, \<lparr>i_slug = ''eco-bottle'', i_qty = JNum 2\<rparr>])
   \<and> checkout env0 store0 (ValidToken alice)
        (Some [\<lparr>i_slug = ''eco-bottle'', i_qty = JNum 1\<rparr>, \<lparr>i_slug = ''eco-bottle'', i_qty = JNum 2\<rparr>])
      = (Error 400 ''Unknown product in cart'', store0)"
proof -
  have a: "requireAuth (ValidToken alice) = Inr alice" by simp
  have k: "distinct (map p_slug (products store0))" by (simp add: shop_defs)
  have d: "\<not> distinct (map i_slug [\<lparr>i_slug = ''eco-bottle'', i_qty = JNum 1\<rparr>, \<lparr>i_slug = ''eco-bottle'', i_qty = JNum 2\<rparr>])"
    by simp
  show ?thesis using a k d checkout_duplicate_slug_rejected [OF a k d, of env0] by simp
qed

lemma norm_qty_ge_1: "1 \<le> norm_qty e v"
  by (simp add: norm_qty_def)

lemma trunc_norm_qty: "trunc (norm_qty e v) = \<lfloor>norm_qty e v\<rfloor>"
  using norm_qty_ge_1 [of e v] by (intro trunc_floor) linarith

text \<open>
  The persisted total is not always the exact sum of price times quantity: for one
  bulb at 3.9 and one bottle at 19.9 the handler stores 23.799999999999997, which is
  the sum of the two prices rounded to a double.
\<close>

theorem checkout_total_exact_sum_counterexample:
  "checkout env0 store0 (ValidToken alice)
       (Some [\<lparr>i_slug = ''led-bulb'', i_qty = JNum 1\<rparr>, \<lparr>i_slug = ''eco-bottle'', i_qty = JNum 1\<rparr>])
     = (CheckoutOk 1, store2)
   \<and> map s_total (sales store2) = [1674776111428403 / 70368744177664]
   \<and> (\<Sum>i\<leftarrow>[\<lparr>i_slug = ''led-bulb'', i_qty = JNum 1\<rparr>, \<lparr>i_slug = ''eco-bottle'', i_qty = JNum 1\<rparr>].
          p_price (the (slug_product store0 (i_slug i))) * norm_qty env0 (i_qty i))
       = 53592835565708899 / 2251799813685248
   \<and> (1674776111428403 / 70368744177664 :: rat) \<noteq> 53592835565708899 / 2251799813685248"
proof -
  have a: "map s_total (sales store2) = [1674776111428403 / 70368744177664]"
    by (simp add: store2_def shop_defs)
  have b: "(\<Sum>i\<leftarrow>[\<lparr>i_slug = ''led-bulb'', i_qty = JNum 1\<rparr>, \<lparr>i_slug = ''eco-bottle'', i_qty = JNum 1\<rparr>].
          p_price (the (slug_product store0 (i_slug i))) * norm_qty env0 (i_qty i))
       = 53592835565708899 / 2251799813685248"
    by (simp add: slug_product_def shop_defs norm_qty_def price_19_9_def price_3_9_def)
  have c: "(1674776111428403 / 70368744177664 :: rat) \<noteq> 53592835565708899 / 2251799813685248"
    by simp
  show ?thesis using checkout_two_items a b c by blast
qed

text \<open>
  Claim C2, amended. A checkout that succeeds answers with the id of a sale that was
  not there before. Its total is the sum, over the submitted items in their order, of
  the price found for the slug in the store at order time times the normalized
  quantity, formed in double arithmetic: each product and each partial sum is rounded
  to a double. Each new order-item stores that price.
\<close>

theorem checkout_success_order:
  assumes "product_keys st" and "checkout e st ck body = (CheckoutOk oid, st')"
  shows "oid \<notin> set (map s_id (sales st))
     \<and> (\<exists>sl. sales st' = sales st @ [sl] \<and> s_id sl = oid
            \<and> s_total sl = foldl (\<lambda>s i. js_add s
                  (js_mul (p_price (the (slug_product st (i_slug i)))) (norm_qty e (i_qty i))))
                0 (req_items body))
     \<and> (\<forall>i\<in>set (req_items body). \<exists>p\<in>set (products st). p_slug p = i_slug i
            \<and> slug_product st (i_slug i) = Some p)
     \<and> saleItems st' = saleItems st @ map (order_line e st oid) (req_items body)
     \<and> map si_price (drop (length (saleItems st)) (saleItems st'))
          = map (\<lambda>i. p_price (the (slug_product st (i_slug i)))) (req_items body)"
proof -
  from checkout_success [OF assms] obtain u :: claims where
    items: "\<forall>i\<in>set (req_items body). \<exists>p\<in>set (products st). slug_product st (i_slug i) = Some p
            \<and> p_slug p = i_slug i
            \<and> norm_qty e (i_qty i) \<le> rat_of_int (p_stock p)"
    and oid: "oid = fresh_id e (map s_id (sales st))"
    and st': "st' = st\<lparr>sales := sales st @
                  [\<lparr>s_id = oid, s_total = order_total e st (req_items body), s_userId = cl_id u\<rparr>],
                saleItems := saleItems st @ map (order_line e st oid) (req_items body),
                products := map (\<lambda>p. p\<lparr>p_stock := p_stock p - ordered_qty e (req_items body) (p_slug p)\<rparr>)
                              (products st),
                carts := map (close_cart (cl_id u)) (carts st)\<rparr>"
    by blast
  have new: "oid \<notin> set (map s_id (sales st))"
    using fresh_id_above [of oid "map s_id (sales st)" e] oid by auto
  have sl: "\<exists>sl. sales st' = sales st @ [sl] \<and> s_id sl = oid
            \<and> s_total sl = foldl (\<lambda>s i. js_add s
                  (js_mul (p_price (the (slug_product st (i_slug i)))) (norm_qty e (i_qty i))))
                0 (req_items body)"
    unfolding st' by (simp add: order_total_def)
  have res: "\<forall>i\<in>set (req_items body). \<exists>p\<in>set (products st). p_slug p = i_slug i
            \<and> slug_product st (i_slug i) = Some p"
    using items by blast
  have lines: "saleItems st' = saleItems st @ map (order_line e st oid) (req_items body)"
    unfolding st' by simp
  have prices: "map si_price (drop (length (saleItems st)) (saleItems st'))
          = map (\<lambda>i. p_price (the (slug_product st (i_slug i)))) (req_items body)"
    unfolding lines by (simp add: order_line_def comp_def)
  show ?thesis using new sl res lines prices by blast
qed

theorem checkout_success_order_witness:
  "product_keys store0
   \<and> checkout env0 store0 (ValidToken alice)
       (Some [\<lparr>i_slug = ''led-bulb'', i_qty = JNum 1\<rparr>, \<lparr>i_slug = ''eco-bottle'', i_qty = JNum 1\<rparr>])
       = (CheckoutOk 1, store2)
   \<and> 1 \<notin> set (map s_id (sales store0))
   \<and> (\<exists>sl. sales store2 = sales store0 @ [sl] \<and> s_id sl = 1
          \<and> s_total sl = js_add (js_add 0 (js_mul price_3_9 1)) (js_mul price_19_9 1))
   \<and> js_add (js_add 0 (js_mul price_3_9 1)) (js_mul price_19_9 1)
       = 1674776111428403 / 70368744177664
   \<and> saleItems store2 = saleItems store0
        @ [\<lparr>si_saleId = 1, si_productId = 6, si_qty = 1, si_price = price_3_9\<rparr>,
           \<lparr>si_saleId = 1, si_productId = 5, si_qty = 1, si_price = price_19_9\<rparr>]"
proof -
  let ?body = "Some [\<lparr>i_slug = ''led-bulb'', i_qty = JNum 1\<rparr>, \<lparr>i_slug = ''eco-bottle'', i_qty = JNum 1\<rparr>]"
  note t = checkout_success_order [OF product_keys_store0 checkout_two_items]
  have tot: "foldl (\<lambda>s i. js_add s
                  (js_mul (p_price (the (slug_product store0 (i_slug i)))) (norm_qty env0 (i_qty i))))
                0 (req_items ?body)
      = js_add (js_add 0 (js_mul price_3_9 1)) (js_mul price_19_9 1)"
    by (simp add: req_items_def slug_product_def shop_defs norm_qty_def)
  have line: "map (order_line env0 store0 1) (req_items ?body)
      = [\<lparr>si_saleId = 1, si_productId = 6, si_qty = 1, si_price = price_3_9\<rparr>,
         \<lparr>si_saleId = 1, si_productId = 5, si_qty = 1, si_price = price_19_9\<rparr>]"
    by (simp add: req_items_def order_line_def slug_product_def shop_defs norm_qty_def trunc_def)
  from t have "1 \<notin> set (map s_id (sales store0))" by blast
  moreover from t tot have "\<exists>sl. sales store2 = sales store0 @ [sl] \<and> s_id sl = 1
      \<and> s_total sl = js_add (js_add 0 (js_mul price_3_9 1)) (js_mul price_19_9 1)" by metis
  moreover from t line have "saleItems store2 = saleItems store0
        @ [\<lparr>si_saleId = 1, si_productId = 6, si_qty = 1, si_price = price_3_9\<rparr>,
           \<lparr>si_saleId = 1, si_productId = 5, si_qty = 1, si_price = price_19_9\<rparr>]" by metis
  ultimately show ?thesis using product_keys_store0 checkout_two_items bulb_and_bottle by blast
qed

text \<open>
  Claim C3. If no product has negative stock before a checkout, none has after it,
  whatever the handler answers.
\<close>

theorem checkout_stock_nonneg:
  assumes keys: "product_keys st" and nn: "\<forall>p\<in>set (products st). 0 \<le> p_stock p"
  shows "\<forall>p\<in>set (products (snd (checkout e st ck body))). 0 \<le> p_stock p"
proof (cases "\<exists>oid st'. checkout e st ck body = (CheckoutOk oid, st')")
  case False
  then have "snd (checkout e st ck body) = st" using checkout_cases [of e st ck body] by blast
  then show ?thesis using nn by simp
next
  case True
  then obtain oid st' where ok: "checkout e st ck body = (CheckoutOk oid, st')" by blast
  let ?items = "req_items body"
  from checkout_success [OF keys ok] obtain u :: claims where
    di: "distinct (map i_slug ?items)"
    and items: "\<forall>i\<in>set ?items. \<exists>p\<in>set (products st). slug_product st (i_slug i) = Some p
            \<and> p_slug p = i_slug i
            \<and> norm_qty e (i_qty i) \<le> rat_of_int (p_stock p)"
    and st': "st' = st\<lparr>sales := sales st @
                  [\<lparr>s_id = oid, s_total = order_total e st ?items, s_userId = cl_id u\<rparr>],
                saleItems := saleItems st @ map (order_line e st oid) ?items,
                products := map (\<lambda>p. p\<lparr>p_stock := p_stock p - ordered_qty e ?items (p_slug p)\<rparr>)
                              (products st),
                carts := map (close_cart (cl_id u)) (carts st)\<rparr>"
    by blast
  have ds: "distinct (map p_slug (products st))" using keys by (simp add: product_keys_def)
  have le: "ordered_qty e ?items (p_slug p) \<le> p_stock p" if p: "p \<in> set (products st)" for p
  proof -
    from filter_distinct_key [OF di, of "p_slug p"]
    consider "filter (\<lambda>i. i_slug i = p_slug p) ?items = []"
      | i where "i \<in> set ?items" "i_slug i = p_slug p" "filter (\<lambda>i. i_slug i = p_slug p) ?items = [i]"
      by blast
    then show ?thesis
    proof cases
      case 1
      then show ?thesis using nn p by (simp add: ordered_qty_def)
    next
      case 2
      from items 2(1) obtain p' where p': "slug_product st (i_slug i) = Some p'"
        "norm_qty e (i_qty i) \<le> rat_of_int (p_stock p')" by blast
      have "slug_product st (p_slug p) = Some p"
        unfolding slug_product_def using find_by_slug [OF ds p] .
      then have "p' = p" using p' 2(2) by simp
      then have "\<lfloor>norm_qty e (i_qty i)\<rfloor> \<le> p_stock p" using p'(2) by (simp add: floor_le_iff)
      then show ?thesis using 2(3) by (simp add: ordered_qty_def trunc_norm_qty)
    qed
  qed
  have "products st' = map (\<lambda>p. p\<lparr>p_stock := p_stock p - ordered_qty e ?items (p_slug p)\<rparr>) (products st)"
    unfolding st' by simp
  then have "\<forall>p\<in>set (products st'). 0 \<le> p_stock p" using le by auto
  then show ?thesis using ok by simp
qed

theorem checkout_stock_nonneg_witness:
  "product_keys store0 \<and> list_all (\<lambda>p. 0 \<le> p_stock p) (products store0)
   \<and> list_all (\<lambda>p. 0 \<le> p_stock p)
        (products (snd (checkout env0 store0 (ValidToken alice)
           (Some [\<lparr>i_slug = ''eco-bottle'', i_qty = JNum 2\<rparr>]))))
   \<and> map p_stock (products store1) = [18, 7]"
proof -
  have nn: "\<forall>p\<in>set (products store0). 0 \<le> p_stock p" by (simp add: shop_defs)
  have "\<forall>p\<in>set (products (snd (checkout env0 store0 (ValidToken alice)
           (Some [\<lparr>i_slug = ''eco-bottle'', i_qty = JNum 2\<rparr>])))). 0 \<le> p_stock p"
    using checkout_stock_nonneg [OF product_keys_store0 nn] .
  moreover have "map p_stock (products store1) = [18, 7]" by (simp add: shop_defs)
  ultimately show ?thesis using product_keys_store0 nn by (simp add: list_all_iff)
qed

lemma filter_distinct_member:
  "distinct (map f xs) \<Longrightarrow> x \<in> set xs \<Longrightarrow> filter (\<lambda>y. f y = f x) xs = [x]"
proof (induction xs)
  case Nil
  then show ?case by simp
next
  case (Cons y ys)
  show ?case
  proof (cases "x = y")
    case True
    have "filter (\<lambda>z. f z = f y) ys = []"
      using Cons.prems(1) by (auto simp: filter_empty_conv) (metis imageI)
    then show ?thesis using True by simp
  next
    case False
    then have x: "x \<in> set ys" using Cons.prems(2) by simp
    then have "f y \<noteq> f x" using Cons.prems(1) by auto
    then show ?thesis using Cons.IH x Cons.prems(1) by simp
  qed
qed

lemma norm_qty_cases:
  "norm_qty e v = (case Number e v of NaN \<Rightarrow> 1 | Num r \<Rightarrow> if r < 1 then 1 else r)"
  by (cases "Number e v") (auto simp: norm_qty_def)

text \<open>
  The quantity is not normalized to an integer: for the JSON number 2.5 the expression
  gives 2.5. With it the stock check passes, the checkout succeeds and the total is
  19.9 * 2.5 = 49.75, while the order-item holds 2 and the stock goes down by 2.
\<close>

theorem checkout_quantity_integer_counterexample:
  "norm_qty env0 (JNum (5 / 2)) = 5 / 2
   \<and> rat_of_int \<lfloor>norm_qty env0 (JNum (5 / 2))\<rfloor> \<noteq> norm_qty env0 (JNum (5 / 2))
   \<and> checkout env0 store0 (ValidToken alice) (Some [\<lparr>i_slug = ''eco-bottle'', i_qty = JNum (5 / 2)\<rparr>])
       = (CheckoutOk 1, store3)
   \<and> map s_total (sales store3) = [199 / 4]
   \<and> map si_qty (saleItems store3) = [2]
   \<and> map p_stock (products store0) = [20, 7] \<and> map p_stock (products store3) = [18, 7]"
proof -
  have a: "norm_qty env0 (JNum (5 / 2)) = 5 / 2" by (simp add: norm_qty_def)
  have b: "rat_of_int \<lfloor>norm_qty env0 (JNum (5 / 2))\<rfloor> \<noteq> norm_qty env0 (JNum (5 / 2))"
    unfolding a by (simp add: floor_five_halves)
  have c: "map s_total (sales store3) = [199 / 4]" "map si_qty (saleItems store3) = [2]"
    "map p_stock (products store0) = [20, 7]" "map p_stock (products store3) = [18, 7]"
    by (simp_all add: store3_def shop_defs)
  show ?thesis using a b c checkout_fraction by blast
qed

text \<open>
  Claim C4, amended. The quantity is normalized to a number that is at least 1: it is 1
  when the numeric value of the input is missing, \<open>NaN\<close> or below 1, and that
  numeric value otherwise, whole or not. When a checkout succeeds, this one value has
  passed the stock check for every item and prices the total; the quantity of the
  persisted order-item and the amount taken from the product's stock are this value
  with its fraction cut off, which is the value itself when it is whole.
\<close>

theorem checkout_quantity_normalized:
  "1 \<le> norm_qty e v
   \<and> norm_qty e JUndefined = 1
   \<and> (Number e v = NaN \<longrightarrow> norm_qty e v = 1)
   \<and> (\<forall>r. Number e v = Num r \<longrightarrow> norm_qty e v = (if r < 1 then 1 else r))
   \<and> (product_keys st \<and> checkout e st ck body = (CheckoutOk oid, st') \<longrightarrow>
        (\<exists>sl\<in>set (sales st'). s_id sl = oid
            \<and> s_total sl = foldl (\<lambda>s i. js_add s
                  (js_mul (p_price (the (slug_product st (i_slug i)))) (norm_qty e (i_qty i))))
                0 (req_items body))
        \<and> (\<forall>i\<in>set (req_items body). \<exists>p\<in>set (products st).
              slug_product st (i_slug i) = Some p
              \<and> norm_qty e (i_qty i) \<le> rat_of_int (p_stock p)
              \<and> \<lparr>si_saleId = oid, si_productId = p_id p, si_qty = \<lfloor>norm_qty e (i_qty i)\<rfloor>,
                   si_price = p_price p\<rparr> \<in> set (saleItems st')
              \<and> (\<exists>p'\<in>set (products st'). p_id p' = p_id p
                    \<and> p_stock p' = p_stock p - \<lfloor>norm_qty e (i_qty i)\<rfloor>)
              \<and> (\<forall>n. norm_qty e (i_qty i) = rat_of_int n \<longrightarrow> \<lfloor>norm_qty e (i_qty i)\<rfloor> = n)))"
proof -
  have a: "1 \<le> norm_qty e v" by (simp add: norm_qty_def)
  have b: "norm_qty e JUndefined = 1" by (simp add: norm_qty_def)
  have c: "Number e v = NaN \<longrightarrow> norm_qty e v = 1" by (simp add: norm_qty_cases)
  have d: "\<forall>r. Number e v = Num r \<longrightarrow> norm_qty e v = (if r < 1 then 1 else r)"
    by (simp add: norm_qty_cases)
  have s: "(\<exists>sl\<in>set (sales st'). s_id sl = oid
            \<and> s_total sl = foldl (\<lambda>s i. js_add s
                  (js_mul (p_price (the (slug_product st (i_slug i)))) (norm_qty e (i_qty i))))
                0 (req_items body))
        \<and> (\<forall>i\<in>set (req_items body). \<exists>p\<in>set (products st).
              slug_product st (i_slug i) = Some p
              \<and> norm_qty e (i_qty i) \<le> rat_of_int (p_stock p)
              \<and> \<lparr>si_saleId = oid, si_productId = p_id p, si_qty = \<lfloor>norm_qty e (i_qty i)\<rfloor>,
                   si_price = p_price p\<rparr> \<in> set (saleItems st')
              \<and> (\<exists>p'\<in>set (products st'). p_id p' = p_id p
                    \<and> p_stock p' = p_stock p - \<lfloor>norm_qty e (i_qty i)\<rfloor>)
              \<and> (\<forall>n. norm_qty e (i_qty i) = rat_of_int n \<longrightarrow> \<lfloor>norm_qty e (i_qty i)\<rfloor> = n))"
    if keys: "product_keys st" and ok: "checkout e st ck body = (CheckoutOk oid, st')"
  proof -
    let ?items = "req_items body"
    from checkout_success [OF keys ok] obtain u :: claims where
      di: "distinct (map i_slug ?items)"
      and items: "\<forall>i\<in>set ?items. \<exists>p\<in>set (products st). slug_product st (i_slug i) = Some p
            \<and> p_slug p = i_slug i
            \<and> norm_qty e (i_qty i) \<le> rat_of_int (p_stock p)"
      and st': "st' = st\<lparr>sales := sales st @
                  [\<lparr>s_id = oid, s_total = order_total e st ?items, s_userId = cl_id u\<rparr>],
                saleItems := saleItems st @ map (order_line e st oid) ?items,
                products := map (\<lambda>p. p\<lparr>p_stock := p_stock p - ordered_qty e ?items (p_slug p)\<rparr>)
                              (products st),
                carts := map (close_cart (cl_id u)) (carts st)\<rparr>"
      by blast
    have sale: "\<exists>sl\<in>set (sales st'). s_id sl = oid
            \<and> s_total sl = foldl (\<lambda>s i. js_add s
                  (js_mul (p_price (the (slug_product st (i_slug i)))) (norm_qty e (i_qty i))))
                0 ?items"
      unfolding st' by (simp add: order_total_def)
    have line: "\<exists>p\<in>set (products st).
              slug_product st (i_slug i) = Some p
              \<and> norm_qty e (i_qty i) \<le> rat_of_int (p_stock p)
              \<and> \<lparr>si_saleId = oid, si_productId = p_id p, si_qty = \<lfloor>norm_qty e (i_qty i)\<rfloor>,
                   si_price = p_price p\<rparr> \<in> set (saleItems st')
              \<and> (\<exists>p'\<in>set (products st'). p_id p' = p_id p
                    \<and> p_stock p' = p_stock p - \<lfloor>norm_qty e (i_qty i)\<rfloor>)
              \<and> (\<forall>n. norm_qty e (i_qty i) = rat_of_int n \<longrightarrow> \<lfloor>norm_qty e (i_qty i)\<rfloor> = n)"
      if i: "i \<in> set ?items" for i
    proof -
      let ?n = "\<lfloor>norm_qty e (i_qty i)\<rfloor>"
      from items i obtain p where p: "p \<in> set (products st)" "slug_product st (i_slug i) = Some p"
        "p_slug p = i_slug i" "norm_qty e (i_qty i) \<le> rat_of_int (p_stock p)" by blast
      have "order_line e st oid i \<in> set (saleItems st')" unfolding st' using i by simp
      then have mem: "\<lparr>si_saleId = oid, si_productId = p_id p, si_qty = ?n, si_price = p_price p\<rparr>
          \<in> set (saleItems st')" using p(2) by (simp add: order_line_def trunc_norm_qty)
      have "filter (\<lambda>j. i_slug j = i_slug i) ?items = [i]"
        using filter_distinct_member [OF di i] .
      then have oq: "ordered_qty e ?items (p_slug p) = ?n"
        using p(3) by (simp add: ordered_qty_def trunc_norm_qty)
      have "p\<lparr>p_stock := p_stock p - ordered_qty e ?items (p_slug p)\<rparr> \<in> set (products st')"
        unfolding st' using p(1) by auto
      then have "p\<lparr>p_stock := p_stock p - ?n\<rparr> \<in> set (products st')" using oq by simp
      then have dec: "\<exists>p'\<in>set (products st'). p_id p' = p_id p \<and> p_stock p' = p_stock p - ?n"
        by (rule bexI [rotated]) simp
      have whole: "\<forall>n. norm_qty e (i_qty i) = rat_of_int n \<longrightarrow> ?n = n" by simp
      from p mem dec whole show ?thesis by metis
    qed
    show ?thesis using sale line by blast
  qed
  show ?thesis using a b c d s by blast
qed

theorem checkout_quantity_normalized_witness:
  "product_keys store0
   \<and> checkout env0 store0 (ValidToken alice) (Some [\<lparr>i_slug = ''eco-bottle'', i_qty = JNum (5 / 2)\<rparr>])
       = (CheckoutOk 1, store3)
   \<and> Number env0 (JNum (5 / 2)) = Num (5 / 2) \<and> norm_qty env0 (JNum (5 / 2)) = 5 / 2 \<and> norm_qty env0 JUndefined = 1
   \<and> (\<exists>sl\<in>set (sales store3). s_id sl = 1 \<and> s_total sl = js_add 0 (js_mul price_19_9 (5 / 2)))
   \<and> js_add 0 (js_mul price_19_9 (5 / 2)) = 199 / 4
   \<and> (\<exists>p\<in>set (products store0).
          slug_product store0 ''eco-bottle'' = Some p
          \<and> norm_qty env0 (JNum (5 / 2)) \<le> rat_of_int (p_stock p)
          \<and> \<lparr>si_saleId = 1, si_productId = p_id p, si_qty = 2, si_price = p_price p\<rparr>
              \<in> set (saleItems store3)
          \<and> (\<exists>p'\<in>set (products store3). p_id p' = p_id p \<and> p_stock p' = p_stock p - 2))"
proof -
  let ?it = "\<lparr>i_slug = ''eco-bottle'', i_qty = JNum (5 / 2)\<rparr>"
  note t = checkout_quantity_normalized [where e = env0 and v = "JNum (5 / 2)" and st = store0
      and ck = "ValidToken alice" and body = "Some [?it]" and oid = 1 and st' = store3]
  have n: "Number env0 (JNum (5 / 2)) = Num (5 / 2)" by simp
  from t have "\<forall>r. Number env0 (JNum (5 / 2)) = Num r
      \<longrightarrow> norm_qty env0 (JNum (5 / 2)) = (if r < 1 then 1 else r)" by blast
  with n have "norm_qty env0 (JNum (5 / 2)) = (if (5 / 2 :: rat) < 1 then 1 else 5 / 2)" by blast
  then have q: "norm_qty env0 (JNum (5 / 2)) = 5 / 2" by simp
  have fq: "\<lfloor>norm_qty env0 (JNum (5 / 2))\<rfloor> = 2" unfolding q by (rule floor_five_halves)
  from t have u: "norm_qty env0 JUndefined = 1" by blast
  have tot: "foldl (\<lambda>s i. js_add s
                  (js_mul (p_price (the (slug_product store0 (i_slug i)))) (norm_qty env0 (i_qty i))))
                0 (req_items (Some [?it]))
      = js_add 0 (js_mul price_19_9 (5 / 2))"
    by (simp add: req_items_def slug_product_def shop_defs norm_qty_def)
  from t product_keys_store0 checkout_fraction
  have s: "(\<exists>sl\<in>set (sales store3). s_id sl = 1
            \<and> s_total sl = foldl (\<lambda>s i. js_add s
                  (js_mul (p_price (the (slug_product store0 (i_slug i)))) (norm_qty env0 (i_qty i))))
                0 (req_items (Some [?it])))"
    and l: "(\<forall>i\<in>set (req_items (Some [?it])). \<exists>p\<in>set (products store0).
              slug_product store0 (i_slug i) = Some p
              \<and> norm_qty env0 (i_qty i) \<le> rat_of_int (p_stock p)
              \<and> \<lparr>si_saleId = 1, si_productId = p_id p, si_qty = \<lfloor>norm_qty env0 (i_qty i)\<rfloor>,
                   si_price = p_price p\<rparr> \<in> set (saleItems store3)
              \<and> (\<exists>p'\<in>set (products store3). p_id p' = p_id p
                    \<and> p_stock p' = p_stock p - \<lfloor>norm_qty env0 (i_qty i)\<rfloor>)
              \<and> (\<forall>n. norm_qty env0 (i_qty i) = rat_of_int n \<longrightarrow> \<lfloor>norm_qty env0 (i_qty i)\<rfloor> = n))"
    by blast+
  from s have s': "\<exists>sl\<in>set (sales store3). s_id sl = 1 \<and> s_total sl = js_add 0 (js_mul price_19_9 (5 / 2))"
    unfolding tot .
  from l have "\<exists>p\<in>set (products store0).
          slug_product store0 ''eco-bottle'' = Some p
          \<and> norm_qty env0 (JNum (5 / 2)) \<le> rat_of_int (p_stock p)
          \<and> \<lparr>si_saleId = 1, si_productId = p_id p, si_qty = \<lfloor>norm_qty env0 (JNum (5 / 2))\<rfloor>,
               si_price = p_price p\<rparr> \<in> set (saleItems store3)
          \<and> (\<exists>p'\<in>set (products store3). p_id p' = p_id p
                \<and> p_stock p' = p_stock p - \<lfloor>norm_qty env0 (JNum (5 / 2))\<rfloor>)"
    by (simp add: req_items_def)
  then have l': "\<exists>p\<in>set (products store0).
          slug_product store0 ''eco-bottle'' = Some p
          \<and> norm_qty env0 (JNum (5 / 2)) \<le> rat_of_int (p_stock p)
          \<and> \<lparr>si_saleId = 1, si_productId = p_id p, si_qty = 2, si_price = p_price p\<rparr>
              \<in> set (saleItems store3)
          \<and> (\<exists>p'\<in>set (products store3). p_id p' = p_id p \<and> p_stock p' = p_stock p - 2)"
    unfolding fq by simp
  show ?thesis using product_keys_store0 checkout_fraction n q u s' bottles_2_5 l' by blast
qed
section \<open>Carts: one ACTIVE cart per user\<close>

lemma filter_active_close:
  "filter (\<lambda>c. c_status c = ACTIVE) (map (close_cart uid) cs)
     = filter (\<lambda>c. c_status c = ACTIVE \<and> c_userId c \<noteq> uid) cs"
  by (induction cs) (auto simp: close_cart_def)

lemma one_active_close:
  assumes "distinct (map c_userId (filter (\<lambda>c. c_status c = ACTIVE) cs))"
  shows "distinct (map c_userId (filter (\<lambda>c. c_status c = ACTIVE) (map (close_cart uid) cs)))"
proof -
  have eq: "filter (\<lambda>c. c_status c = ACTIVE \<and> c_userId c \<noteq> uid) cs
      = filter (\<lambda>c. c_userId c \<noteq> uid) (filter (\<lambda>c. c_status c = ACTIVE) cs)"
    by (simp add: conj_commute)
  show ?thesis unfolding filter_active_close eq using assms by (rule distinct_map_filter)
qed

lemma no_active_after_close: "find (\<lambda>c. c_userId c = uid \<and> c_status c = ACTIVE) (map (close_cart uid) cs) = None"
  by (induction cs) (auto simp: close_cart_def)

lemma checkout_carts:
  assumes ok: "checkout e st ck body = (CheckoutOk oid, st')"
  shows "\<exists>u. requireAuth ck = Inr u \<and> cl_id u \<in> set (map u_id (users st))
      \<and> carts st' = map (close_cart (cl_id u)) (carts st)
      \<and> users st' = users st \<and> cartItems st' = cartItems st"
proof -
  let ?items = "req_items body"
  let ?B = "fromEntries (map (\<lambda>p. (p_slug p, p)) (findMany_slug_in st (map i_slug ?items)))"
  from ok obtain u where auth: "requireAuth ck = Inr u"
    by (auto simp: checkout_def split: sum.splits dest: requireAuth_Inl)
  from ok auth obtain tot sl where tr: "transaction e st ?B tot (cl_id u) ?items = Some (sl, st')"
    by (auto simp: checkout_def Let_def split: if_splits option.splits dest: check_stock_Some)
  from tr obtain st1 st2 where sc: "sale_create e st tot (cl_id u) = Some (sl, st1)"
    and ti: "tx_items e ?B (s_id sl) st1 ?items = Some st2"
    and cu: "cart_updateMany e st2 (cl_id u) = Some st'"
    by (auto simp: transaction_def split: option.splits prod.splits)
  from sc have usr: "cl_id u \<in> set (map u_id (users st))"
    and st1: "st1 = st\<lparr>sales := sales st @ [sl]\<rparr>"
    by (auto simp: sale_create_def Let_def split: if_splits)
  from tx_items_Some [OF ti] have st2: "carts st2 = carts st1" "users st2 = users st1"
    "cartItems st2 = cartItems st1" by auto
  from cu have st': "st' = st2\<lparr>carts := map (close_cart (cl_id u)) (carts st2)\<rparr>"
    by (auto simp: cart_updateMany_def Let_def split: if_splits)
  show ?thesis using auth usr st' st2 st1 by auto
qed

lemma getOrCreate_found:
  "active_cart st uid = Some c \<Longrightarrow> getOrCreateActiveCart e st uid = Some (include_items st c, st)"
  by (simp add: getOrCreateActiveCart_def active_cart_def)

lemma find_None_notin:
  "find (\<lambda>c. c_userId c = uid \<and> c_status c = ACTIVE) cs = None \<Longrightarrow>
     (uid, ACTIVE) \<notin> set (map (\<lambda>c. (c_userId c, c_status c)) cs)"
  by (auto simp: find_None_iff)

lemma getOrCreate_new:
  assumes "active_cart st uid = None"
  shows "getOrCreateActiveCart e st uid =
     (if uid \<in> set (map u_id (users st))
      then (let c = \<lparr>c_id = fresh_id e (map c_id (carts st)), c_userId = uid, c_status = ACTIVE\<rparr>
            in Some (include_items (st\<lparr>carts := carts st @ [c]\<rparr>) c, st\<lparr>carts := carts st @ [c]\<rparr>))
      else None)"
  using assms find_None_notin [of uid "carts st"]
  by (simp add: getOrCreateActiveCart_def active_cart_def cart_create_def Let_def)

lemma getOrCreate_carts:
  assumes "getOrCreateActiveCart e st uid = Some (cv, st1)"
  shows "(\<exists>c. active_cart st uid = Some c \<and> cv = include_items st c \<and> st1 = st)
     \<or> (active_cart st uid = None \<and> uid \<in> set (map u_id (users st))
         \<and> st1 = st\<lparr>carts := carts st @
               [\<lparr>c_id = fresh_id e (map c_id (carts st)), c_userId = uid, c_status = ACTIVE\<rparr>]\<rparr>
         \<and> cv = include_items st1 \<lparr>c_id = fresh_id e (map c_id (carts st)), c_userId = uid, c_status = ACTIVE\<rparr>)"
proof (cases "active_cart st uid")
  case None
  then show ?thesis using assms getOrCreate_new [OF None, of e] by (auto simp: Let_def split: if_splits)
next
  case (Some c)
  then show ?thesis using assms getOrCreate_found [OF Some, of e] by auto
qed

lemma getOrCreate_one_active:
  assumes inv: "one_active st" and g: "getOrCreateActiveCart e st uid = Some (cv, st1)"
  shows "one_active st1"
proof -
  from getOrCreate_carts [OF g] show ?thesis
  proof
    assume "\<exists>c. active_cart st uid = Some c \<and> cv = include_items st c \<and> st1 = st"
    then show ?thesis using inv by auto
  next
    assume n: "active_cart st uid = None \<and> uid \<in> set (map u_id (users st))
         \<and> st1 = st\<lparr>carts := carts st @
               [\<lparr>c_id = fresh_id e (map c_id (carts st)), c_userId = uid, c_status = ACTIVE\<rparr>]\<rparr>
         \<and> cv = include_items st1 \<lparr>c_id = fresh_id e (map c_id (carts st)), c_userId = uid, c_status = ACTIVE\<rparr>"
    then have "uid \<notin> c_userId ` set (filter (\<lambda>c. c_status c = ACTIVE) (carts st))"
      by (auto simp: active_cart_def find_None_iff)
    then show ?thesis using inv n by (auto simp: one_active_def)
  qed
qed

lemma upsert_line_carts: "upsert_line st cid pidn q = Some st' \<Longrightarrow> carts st' = carts st"
  by (auto simp: upsert_line_def cartItem_update_def cartItem_create_def
      split: option.splits if_splits)

lemma merge_loop_carts:
  "merge_loop e cid st gs = r \<Longrightarrow> carts (case r of Inl s \<Rightarrow> s | Inr s \<Rightarrow> s) = carts st"
proof (induction gs arbitrary: st)
  case Nil
  then show ?case by auto
next
  case (Cons g gs)
  show ?case
  proof (cases "upsert_line st cid (Number e (g_productId g)) (norm_qty e (g_qty g))")
    case None
    then show ?thesis using Cons.prems by auto
  next
    case (Some st1)
    then have "merge_loop e cid st1 gs = r" using Cons.prems by simp
    from Cons.IH [OF this] upsert_line_carts [OF Some] show ?thesis by simp
  qed
qed

lemma endpoint_carts:
  assumes "requireAuth ck = Inr u"
  shows "carts (snd (cart_get e st ck)) \<in> {carts st} \<union> {carts st1 | cv st1. getOrCreateActiveCart e st (cl_id u) = Some (cv, st1)}"
    and "carts (snd (cart_add e st ck pid qty)) \<in> {carts st} \<union> {carts st1 | cv st1. getOrCreateActiveCart e st (cl_id u) = Some (cv, st1)}"
    and "carts (snd (cart_qty e st ck pid qty)) \<in> {carts st} \<union> {carts st1 | cv st1. getOrCreateActiveCart e st (cl_id u) = Some (cv, st1)}"
    and "carts (snd (cart_remove e st ck pidp)) \<in> {carts st} \<union> {carts st1 | cv st1. getOrCreateActiveCart e st (cl_id u) = Some (cv, st1)}"
    and "carts (snd (cart_clear e st ck)) \<in> {carts st} \<union> {carts st1 | cv st1. getOrCreateActiveCart e st (cl_id u) = Some (cv, st1)}"
    and "carts (snd (cart_merge e st ck gbody)) \<in> {carts st} \<union> {carts st1 | cv st1. getOrCreateActiveCart e st (cl_id u) = Some (cv, st1)}"
proof -
  show "carts (snd (cart_get e st ck)) \<in> {carts st} \<union> {carts st1 | cv st1. getOrCreateActiveCart e st (cl_id u) = Some (cv, st1)}"
    using assms by (auto simp: cart_get_def split: option.splits)
  show "carts (snd (cart_add e st ck pid qty)) \<in> {carts st} \<union> {carts st1 | cv st1. getOrCreateActiveCart e st (cl_id u) = Some (cv, st1)}"
    using assms by (auto simp: cart_add_def Let_def split: option.splits dest!: upsert_line_carts)
  show "carts (snd (cart_qty e st ck pid qty)) \<in> {carts st} \<union> {carts st1 | cv st1. getOrCreateActiveCart e st (cl_id u) = Some (cv, st1)}"
    using assms by (auto simp: cart_qty_def Let_def cartItem_update_def split: option.splits if_splits)
  show "carts (snd (cart_remove e st ck pidp)) \<in> {carts st} \<union> {carts st1 | cv st1. getOrCreateActiveCart e st (cl_id u) = Some (cv, st1)}"
    using assms by (auto simp: cart_remove_def Let_def cartItem_delete_def split: option.splits if_splits)
  show "carts (snd (cart_clear e st ck)) \<in> {carts st} \<union> {carts st1 | cv st1. getOrCreateActiveCart e st (cl_id u) = Some (cv, st1)}"
    using assms by (auto simp: cart_clear_def cartItem_deleteMany_def split: option.splits)
  show "carts (snd (cart_merge e st ck gbody)) \<in> {carts st} \<union> {carts st1 | cv st1. getOrCreateActiveCart e st (cl_id u) = Some (cv, st1)}"
    using assms
    by (auto simp: cart_merge_def Let_def split: option.splits sum.splits dest!: merge_loop_carts)
qed

lemma one_active_carts: "carts a = carts b \<Longrightarrow> one_active a = one_active b"
  by (simp add: one_active_def)

lemma endpoint_unauth:
  assumes "requireAuth ck = Inl r"
  shows "snd (cart_get e st ck) = st" and "snd (cart_add e st ck pid qty) = st"
    and "snd (cart_qty e st ck pid qty) = st" and "snd (cart_remove e st ck pidp) = st"
    and "snd (cart_clear e st ck) = st" and "snd (cart_merge e st ck gbody) = st"
  using assms
  by (simp_all add: cart_get_def cart_add_def cart_qty_def cart_remove_def cart_clear_def
      cart_merge_def)

lemma endpoints_one_active:
  assumes inv: "one_active st"
  shows "one_active (snd (cart_get e st ck)) \<and> one_active (snd (cart_add e st ck pid qty))
     \<and> one_active (snd (cart_qty e st ck pid qty)) \<and> one_active (snd (cart_remove e st ck pidp))
     \<and> one_active (snd (cart_clear e st ck)) \<and> one_active (snd (cart_merge e st ck gbody))"
proof (cases "requireAuth ck")
  case (Inl r)
  then show ?thesis using inv endpoint_unauth [OF Inl] by simp
next
  case (Inr u)
  have ok: "one_active s" if "carts s \<in> {carts st} \<union>
      {carts st1 | cv st1. getOrCreateActiveCart e st (cl_id u) = Some (cv, st1)}" for s
  proof -
    from that consider "carts s = carts st"
      | cv st1 where "getOrCreateActiveCart e st (cl_id u) = Some (cv, st1)" "carts s = carts st1"
      by auto
    then show ?thesis
    proof cases
      case 1
      then show ?thesis using inv one_active_carts by blast
    next
      case 2
      from getOrCreate_one_active [OF inv 2(1)] 2(2) show ?thesis using one_active_carts by blast
    qed
  qed
  show ?thesis by (intro conjI ok endpoint_carts [OF Inr])
qed

lemma checkout_one_active:
  assumes inv: "one_active st"
  shows "one_active (snd (checkout e st ck body))"
proof (cases "\<exists>oid st'. checkout e st ck body = (CheckoutOk oid, st')")
  case False
  then have "snd (checkout e st ck body) = st" using checkout_cases [of e st ck body] by blast
  then show ?thesis using inv by simp
next
  case True
  then obtain oid st' where ok: "checkout e st ck body = (CheckoutOk oid, st')" by blast
  from checkout_carts [OF ok] obtain u :: claims
    where "carts st' = map (close_cart (cl_id u)) (carts st)" by blast
  then have "one_active st'" using inv one_active_close by (simp add: one_active_def)
  then show ?thesis using ok by simp
qed

lemma no_lines_of_fresh_cart:
  assumes "cart_keys st"
  shows "filter (\<lambda>ci. ci_cartId ci = fresh_id e (map c_id (carts st))) (cartItems st) = []"
proof -
  have "ci_cartId ci \<noteq> fresh_id e (map c_id (carts st))" if "ci \<in> set (cartItems st)" for ci
  proof -
    from assms that have "ci_cartId ci \<in> set (map c_id (carts st))"
      by (auto simp: cart_keys_def list_all_iff)
    from fresh_id_above [OF this, of e] show ?thesis by simp
  qed
  then show ?thesis by (auto simp: filter_empty_conv)
qed

text \<open>
  Claim C5. No user ever has two ACTIVE carts: the checkout and every cart route keep
  the invariant that a user owns at most one ACTIVE cart. A successful checkout turns every ACTIVE cart of
  the caller into CHECKED_OUT and leaves the caller without an ACTIVE cart; the next cart
  access then creates and returns a new, empty ACTIVE cart. Cart access returns the
  existing ACTIVE cart without a write when there is one, and creates a cart only when
  there is none.
\<close>

theorem one_active_cart_per_user:
  "(one_active st \<longrightarrow>
      one_active (snd (checkout e st ck body)) \<and> one_active (snd (cart_get e st ck))
      \<and> one_active (snd (cart_add e st ck pid qty)) \<and> one_active (snd (cart_qty e st ck pid qty))
      \<and> one_active (snd (cart_remove e st ck pidp)) \<and> one_active (snd (cart_clear e st ck))
      \<and> one_active (snd (cart_merge e st ck gbody)))
   \<and> (checkout e st ck body = (CheckoutOk oid, st') \<longrightarrow>
        (\<exists>u. requireAuth ck = Inr u
           \<and> carts st' = map (\<lambda>c. if c_userId c = cl_id u \<and> c_status c = ACTIVE
                                   then c\<lparr>c_status := CHECKED_OUT\<rparr> else c) (carts st)
           \<and> active_cart st' (cl_id u) = None
           \<and> (cart_keys st \<longrightarrow>
                (\<exists>c. cart_get e st' ck = (CartJson (Some (c, [])), st'\<lparr>carts := carts st' @ [c]\<rparr>)
                   \<and> c_userId c = cl_id u \<and> c_status c = ACTIVE
                   \<and> c_id c \<notin> set (map c_id (carts st'))))))
   \<and> (\<forall>c. active_cart st uid = Some c \<longrightarrow>
          getOrCreateActiveCart e st uid = Some (include_items st c, st))
   \<and> (\<forall>cv st1. getOrCreateActiveCart e st uid = Some (cv, st1) \<and> st1 \<noteq> st \<longrightarrow>
          active_cart st uid = None
          \<and> (\<exists>c. carts st1 = carts st @ [c] \<and> c_userId c = uid \<and> c_status c = ACTIVE \<and> fst cv = c))"
proof -
  have A: "one_active st \<longrightarrow>
      one_active (snd (checkout e st ck body)) \<and> one_active (snd (cart_get e st ck))
      \<and> one_active (snd (cart_add e st ck pid qty)) \<and> one_active (snd (cart_qty e st ck pid qty))
      \<and> one_active (snd (cart_remove e st ck pidp)) \<and> one_active (snd (cart_clear e st ck))
      \<and> one_active (snd (cart_merge e st ck gbody))"
    using checkout_one_active endpoints_one_active by blast
  have B: "\<exists>u. requireAuth ck = Inr u
           \<and> carts st' = map (\<lambda>c. if c_userId c = cl_id u \<and> c_status c = ACTIVE
                                   then c\<lparr>c_status := CHECKED_OUT\<rparr> else c) (carts st)
           \<and> active_cart st' (cl_id u) = None
           \<and> (cart_keys st \<longrightarrow>
                (\<exists>c. cart_get e st' ck = (CartJson (Some (c, [])), st'\<lparr>carts := carts st' @ [c]\<rparr>)
                   \<and> c_userId c = cl_id u \<and> c_status c = ACTIVE
                   \<and> c_id c \<notin> set (map c_id (carts st'))))"
    if ok: "checkout e st ck body = (CheckoutOk oid, st')"
  proof -
    from checkout_carts [OF ok] obtain u where auth: "requireAuth ck = Inr u"
      and usr: "cl_id u \<in> set (map u_id (users st))"
      and cs: "carts st' = map (close_cart (cl_id u)) (carts st)"
      and us: "users st' = users st" and ci: "cartItems st' = cartItems st" by blast
    have cs': "carts st' = map (\<lambda>c. if c_userId c = cl_id u \<and> c_status c = ACTIVE
                                   then c\<lparr>c_status := CHECKED_OUT\<rparr> else c) (carts st)"
      unfolding cs by (simp add: close_cart_def [abs_def])
    have none: "active_cart st' (cl_id u) = None"
      unfolding active_cart_def cs by (rule no_active_after_close)
    have next_cart: "\<exists>c. cart_get e st' ck = (CartJson (Some (c, [])), st'\<lparr>carts := carts st' @ [c]\<rparr>)
                   \<and> c_userId c = cl_id u \<and> c_status c = ACTIVE
                   \<and> c_id c \<notin> set (map c_id (carts st'))" if keys: "cart_keys st"
    proof -
      let ?c = "\<lparr>c_id = fresh_id e (map c_id (carts st')), c_userId = cl_id u, c_status = ACTIVE\<rparr>"
      have ids: "map c_id (carts st') = map c_id (carts st)"
        unfolding cs by (simp add: close_cart_def comp_def)
      have keys': "cart_keys (st\<lparr>carts := carts st'\<rparr>)"
        using keys ids by (simp add: cart_keys_def)
      have empty: "filter (\<lambda>ci. ci_cartId ci = c_id ?c) (cartItems st') = []"
        using no_lines_of_fresh_cart [OF keys'] ci by simp
      have g: "getOrCreateActiveCart e st' (cl_id u)
          = Some (include_items (st'\<lparr>carts := carts st' @ [?c]\<rparr>) ?c, st'\<lparr>carts := carts st' @ [?c]\<rparr>)"
        using getOrCreate_new [OF none, of e] usr us by (simp add: Let_def)
      have "include_items (st'\<lparr>carts := carts st' @ [?c]\<rparr>) ?c = (?c, [])"
        using empty by (simp add: include_items_def)
      then have "cart_get e st' ck = (CartJson (Some (?c, [])), st'\<lparr>carts := carts st' @ [?c]\<rparr>)"
        using auth g by (simp add: cart_get_def)
      moreover have "c_id ?c \<notin> set (map c_id (carts st'))"
        using fresh_id_above [of "c_id ?c" "map c_id (carts st')" e] by auto
      ultimately show ?thesis by (intro exI [of _ ?c]) simp
    qed
    show ?thesis using auth cs' none next_cart by blast
  qed
  have C: "\<forall>c. active_cart st uid = Some c \<longrightarrow>
          getOrCreateActiveCart e st uid = Some (include_items st c, st)"
    using getOrCreate_found by blast
  have D: "\<forall>cv st1. getOrCreateActiveCart e st uid = Some (cv, st1) \<and> st1 \<noteq> st \<longrightarrow>
          active_cart st uid = None
          \<and> (\<exists>c. carts st1 = carts st @ [c] \<and> c_userId c = uid \<and> c_status c = ACTIVE \<and> fst cv = c)"
  proof (intro allI impI)
    fix cv st1
    assume h: "getOrCreateActiveCart e st uid = Some (cv, st1) \<and> st1 \<noteq> st"
    with getOrCreate_carts [of e st uid cv st1]
    have n: "active_cart st uid = None"
      and s: "st1 = st\<lparr>carts := carts st @
               [\<lparr>c_id = fresh_id e (map c_id (carts st)), c_userId = uid, c_status = ACTIVE\<rparr>]\<rparr>"
      and v: "cv = include_items st1 \<lparr>c_id = fresh_id e (map c_id (carts st)), c_userId = uid, c_status = ACTIVE\<rparr>"
      by auto
    show "active_cart st uid = None
          \<and> (\<exists>c. carts st1 = carts st @ [c] \<and> c_userId c = uid \<and> c_status c = ACTIVE \<and> fst cv = c)"
      using n s v by (simp add: include_items_def)
  qed
  show ?thesis using A B C D by blast
qed

theorem one_active_cart_per_user_witness:
  "one_active store0 \<and> cart_keys store0
   \<and> checkout env0 store0 (ValidToken alice) (Some [\<lparr>i_slug = ''eco-bottle'', i_qty = JNum 2\<rparr>])
       = (CheckoutOk 1, store1)
   \<and> one_active store1
   \<and> active_cart store0 2 = Some \<lparr>c_id = 1, c_userId = 2, c_status = ACTIVE\<rparr>
   \<and> getOrCreateActiveCart env0 store0 2
       = Some (include_items store0 \<lparr>c_id = 1, c_userId = 2, c_status = ACTIVE\<rparr>, store0)
   \<and> carts store1 = [\<lparr>c_id = 1, c_userId = 2, c_status = CHECKED_OUT\<rparr>]
   \<and> active_cart store1 2 = None
   \<and> (\<exists>c. cart_get env0 store1 (ValidToken alice)
            = (CartJson (Some (c, [])), store1\<lparr>carts := carts store1 @ [c]\<rparr>)
          \<and> c_userId c = 2 \<and> c_status c = ACTIVE \<and> c_id c \<notin> set (map c_id (carts store1)))"
proof -
  let ?body = "Some [\<lparr>i_slug = ''eco-bottle'', i_qty = JNum 2\<rparr>]"
  note t = one_active_cart_per_user [where e = env0 and st = store0 and ck = "ValidToken alice"
      and body = ?body and oid = 1 and st' = store1 and uid = 2]
  have inv: "one_active store0" by (simp add: one_active_def shop_defs)
  have keys: "cart_keys store0" by (simp add: cart_keys_def shop_defs)
  have act: "active_cart store0 2 = Some \<lparr>c_id = 1, c_userId = 2, c_status = ACTIVE\<rparr>"
    by (simp add: active_cart_def shop_defs)
  from t inv have "one_active (snd (checkout env0 store0 (ValidToken alice) ?body))" by blast
  then have inv1: "one_active store1" by (simp add: checkout_example)
  from t act have g: "getOrCreateActiveCart env0 store0 2
       = Some (include_items store0 \<lparr>c_id = 1, c_userId = 2, c_status = ACTIVE\<rparr>, store0)"
    by blast
  from t checkout_example keys obtain u where u: "requireAuth (ValidToken alice) = Inr u"
    and n: "active_cart store1 (cl_id u) = None"
    and c: "\<exists>c. cart_get env0 store1 (ValidToken alice)
            = (CartJson (Some (c, [])), store1\<lparr>carts := carts store1 @ [c]\<rparr>)
          \<and> c_userId c = cl_id u \<and> c_status c = ACTIVE \<and> c_id c \<notin> set (map c_id (carts store1))"
    by blast
  from u have "cl_id u = 2" by (auto simp: alice_def)
  with n c have n': "active_cart store1 2 = None"
    and c': "\<exists>c. cart_get env0 store1 (ValidToken alice)
            = (CartJson (Some (c, [])), store1\<lparr>carts := carts store1 @ [c]\<rparr>)
          \<and> c_userId c = 2 \<and> c_status c = ACTIVE \<and> c_id c \<notin> set (map c_id (carts store1))"
    by simp_all
  have cs: "carts store1 = [\<lparr>c_id = 1, c_userId = 2, c_status = CHECKED_OUT\<rparr>]"
    by (simp add: shop_defs)
  show ?thesis using inv keys checkout_example inv1 act g cs n' c' by blast
qed

section \<open>Carts: one line per product\<close>

















lemmas cart_defs = getOrCreateActiveCart_def cart_create_def include_items_def cart_findUnique_def
  cartItem_findUnique_def cartItem_update_def cartItem_create_def cartItem_delete_def
  cartItem_deleteMany_def upsert_line_def norm_qty_def prisma_Int_def fresh_id_def






section \<open>Carts: what a mutation answers\<close>


































lemma cart_qty_example:
  "cart_qty env0 store0 (ValidToken alice) (JNum 5) (JNum 4)
     = (CartJson (Some (\<lparr>c_id = 1, c_userId = 2, c_status = ACTIVE\<rparr>,
          [(\<lparr>ci_cartId = 1, ci_productId = 5, ci_qty = 4\<rparr>, Some bottle)])),
        store0\<lparr>cartItems := [\<lparr>ci_cartId = 1, ci_productId = 5, ci_qty = 4\<rparr>]\<rparr>)"
  by (simp add: cart_qty_def cart_defs shop_defs trunc_def)


section \<open>Reviews: stars out of range\<close>

lemma post_review_rejects:
  assumes "\<not> stars_in_range (Number e stars)"
  shows "\<exists>msg. post_review e st name text stars = (Error 400 msg, st)"
proof (cases "Number e stars")
  case NaN
  then show ?thesis by (simp add: post_review_def)
next
  case (Num r)
  then have "r < 1 \<or> 5 < r" using assms by (auto simp: stars_in_range_def)
  then show ?thesis using Num by (auto simp: post_review_def Let_def)
qed

lemma patch_review_rejects:
  assumes "Number e stars = Num r" and "r < 1 \<or> 5 < r"
    and "requireAuth ck = Inr u" and "cl_admin u"
  shows "patch_review e st ck idp name text stars published = (Error 400 stars_msg, st)"
proof -
  have "stars \<noteq> JUndefined" using assms(1) by auto
  then show ?thesis using assms by (auto simp: patch_review_def)
qed

text \<open>
  Claim C8. A review whose number of stars is below 1 or above 5 is answered with 400
  by the public submission and, for an administrator, by the edit; in both cases the
  store, and so every review row, stays as it was.
\<close>

theorem review_stars_out_of_range_rejected:
  assumes "Number e stars = Num r" and "r < 1 \<or> 5 < r"
  shows "(\<exists>msg. post_review e st name text stars = (Error 400 msg, st))
     \<and> (requireAuth ck = Inr u \<and> cl_admin u \<longrightarrow>
          patch_review e st ck idp name' text' stars published = (Error 400 stars_msg, st))"
proof -
  have "\<not> stars_in_range (Number e stars)" using assms by (auto simp: stars_in_range_def)
  from post_review_rejects [OF this] patch_review_rejects [OF assms] show ?thesis by blast
qed

theorem review_stars_out_of_range_rejected_witness:
  "Number env0 (JNum 6) = Num 6
   \<and> (\<exists>msg. post_review env0 store0 (JStr ''Bob'') (JStr ''Too good'') (JNum 6) = (Error 400 msg, store0))
   \<and> requireAuth (ValidToken root) = Inr root \<and> cl_admin root
   \<and> patch_review env0 store0 (ValidToken root) ''1'' JUndefined JUndefined (JNum 6) JUndefined
       = (Error 400 stars_msg, store0)
   \<and> (\<exists>msg. post_review env0 store0 (JStr ''Bob'') (JStr ''Too bad'') (JNum (- 1)) = (Error 400 msg, store0))
   \<and> patch_review env0 store0 (ValidToken root) ''1'' JUndefined JUndefined (JNum 0) JUndefined
       = (Error 400 stars_msg, store0)"
proof -
  have n6: "Number env0 (JNum 6) = Num 6" and r6: "(6::rat) < 1 \<or> (5::rat) < 6" by simp_all
  have n1: "Number env0 (JNum (- 1)) = Num (- 1)" and r1: "(- 1::rat) < 1 \<or> (5::rat) < - 1" by simp_all
  have n0: "Number env0 (JNum 0) = Num 0" and r0: "(0::rat) < 1 \<or> (5::rat) < 0" by simp_all
  have a: "requireAuth (ValidToken root) = Inr root" by simp
  have b: "cl_admin root" by (simp add: root_def)
  note t6 = review_stars_out_of_range_rejected [OF n6 r6, of store0 "JStr ''Bob''" "JStr ''Too good''"
      "ValidToken root" root "''1''" JUndefined JUndefined JUndefined]
  note t1 = review_stars_out_of_range_rejected [OF n1 r1, of store0 "JStr ''Bob''" "JStr ''Too bad''"
      "ValidToken root" root "''1''" JUndefined JUndefined JUndefined]
  note t0 = review_stars_out_of_range_rejected [OF n0 r0, of store0 "JStr ''Bob''" "JStr ''Too bad''"
      "ValidToken root" root "''1''" JUndefined JUndefined JUndefined]
  show ?thesis using n6 a b t6 t1 t0 by blast
qed

text \<open>
  Stars that are no number at all are outside the claim: the submission refuses them
  with 400 as well (\<open>post_review_rejects\<close>), the edit passes them to Prisma, which
  throws; no row changes either way.
\<close>

lemma patch_review_not_a_number:
  "patch_review env0 store0 (ValidToken root) ''1'' JUndefined JUndefined (JStr ''five'') JUndefined
     = (Rejected, store0)"
  by (simp add: patch_review_def review_update_def set_stars_def shop_defs prisma_Int_def trunc_def)

section \<open>Profile update\<close>

lemma find_map_key:
  assumes "\<And>x. k (f x) = k x"
  shows "find (\<lambda>x. k x = a) (map (\<lambda>x. if k x = a then f x else x) xs)
     = map_option f (find (\<lambda>x. k x = a) xs)"
  using assms by (induction xs) auto

lemma find_key: "find (\<lambda>x. k x = a) xs = Some y \<Longrightarrow> k y = a"
  by (induction xs) (auto split: if_splits)

lemma update_me_cookie:
  assumes me: "find (\<lambda>x. u_id x = uid) (users st) = Some me"
    and r: "update_me e st me name email newPassword = (r, c, st')"
  shows "(c \<noteq> None \<longleftrightarrow> stored_email st' uid \<noteq> stored_email st uid)
     \<and> (\<forall>cl. c = Some cl \<longrightarrow> Some (cl_email cl) = stored_email st' uid \<and> cl_id cl = uid)
     \<and> ((\<exists>code msg. r = Error code msg) \<longrightarrow> st' = st)"
proof -
  let ?dn = "data_name e name" and ?de = "data_email e me email" and ?dp = "data_password e newPassword"
  have id: "u_id me = uid" using find_key [OF me] .
  have before: "stored_email st uid = Some (u_email me)" using me by (simp add: stored_email_def)
  have de: "m \<noteq> u_email me" if "?de = Some m" for m
    using that by (auto simp: data_email_def split: jsval.splits if_splits)
  show ?thesis
  proof (cases "case ?de of Some m \<Rightarrow> email_taken st me m | None \<Rightarrow> False")
    case True
    then have "r = Error 409 email_msg \<and> c = None \<and> st' = st"
      using r by (simp add: update_me_def Let_def)
    then show ?thesis by simp
  next
    case free: False
    show ?thesis
    proof (cases "?dn = None \<and> ?de = None \<and> ?dp = None")
      case True
      then have "c = None \<and> st' = st" using r free by (auto simp: update_me_def Let_def)
      then show ?thesis by simp
    next
      case False
      let ?f = "apply_data ?dn ?de ?dp"
      from r free False have rr: "r = UserJson (u_id (?f me)) (u_email (?f me)) (u_name (?f me)) (u_admin (?f me))"
        and c: "c = (if u_email (?f me) \<noteq> u_email me
              then Some \<lparr>cl_id = u_id (?f me), cl_email = u_email (?f me), cl_admin = u_admin (?f me)\<rparr>
              else None)"
        and st': "st' = st\<lparr>users := map (\<lambda>x. if u_id x = u_id me then ?f x else x) (users st)\<rparr>"
        by (auto simp: update_me_def Let_def user_update_def)
      have "find (\<lambda>x. u_id x = uid) (users st') = map_option ?f (find (\<lambda>x. u_id x = uid) (users st))"
        unfolding st' id using find_map_key [where k = u_id and f = ?f and a = uid]
        by (simp add: apply_data_def)
      then have after: "stored_email st' uid = Some (u_email (?f me))"
        using me by (simp add: stored_email_def)
      have "u_id (?f me) = uid" using id by (simp add: apply_data_def)
      then show ?thesis using rr c before after by auto
    qed
  qed
qed

lemma patch_me_cases:
  assumes auth: "requireAuth ck = Inr u"
    and r: "patch_me e st ck name email cur newPassword = (r, c, st')"
  shows "(c = None \<and> st' = st \<and> (\<exists>code msg. r = Error code msg))
     \<or> (\<exists>me. find (\<lambda>x. u_id x = cl_id u) (users st) = Some me
           \<and> update_me e st me name email newPassword = (r, c, st'))"
  using assms by (auto simp: patch_me_def split: if_splits option.splits jsval.splits)

text \<open>
  Claim C9. For an authenticated caller, a profile update without the current secret
  is answered with 400 and changes nothing; one whose current secret the stored hash
  does not match is answered with 401 and changes nothing; and the handler re-issues
  the cookie exactly when the email stored for the caller changes, with the new email
  in its claims. So a change of only the name or the password re-issues nothing.
\<close>

theorem profile_update_secret_and_cookie:
  assumes auth: "requireAuth ck = Inr u"
  shows "(\<not> truthy cur \<longrightarrow>
        patch_me e st ck name email cur newPassword
          = (Error 400 ''Mot de passe actuel requis'', None, st))
     \<and> (\<forall>me pw. find (\<lambda>x. u_id x = cl_id u) (users st) = Some me \<and> cur = JStr pw \<and> pw \<noteq> []
            \<and> \<not> bcrypt_compare e pw (u_password me) \<longrightarrow>
          patch_me e st ck name email cur newPassword
            = (Error 401 ''Mot de passe actuel invalide'', None, st))
     \<and> (\<forall>r c st'. patch_me e st ck name email cur newPassword = (r, c, st') \<longrightarrow>
          (c \<noteq> None \<longleftrightarrow> stored_email st' (cl_id u) \<noteq> stored_email st (cl_id u))
          \<and> (\<forall>cl. c = Some cl \<longrightarrow> Some (cl_email cl) = stored_email st' (cl_id u) \<and> cl_id cl = cl_id u)
          \<and> ((\<exists>code msg. r = Error code msg) \<longrightarrow> st' = st))"
proof -
  have A: "\<not> truthy cur \<longrightarrow>
        patch_me e st ck name email cur newPassword
          = (Error 400 ''Mot de passe actuel requis'', None, st)"
    using auth by (simp add: patch_me_def)
  have B: "\<forall>me pw. find (\<lambda>x. u_id x = cl_id u) (users st) = Some me \<and> cur = JStr pw \<and> pw \<noteq> []
            \<and> \<not> bcrypt_compare e pw (u_password me) \<longrightarrow>
          patch_me e st ck name email cur newPassword
            = (Error 401 ''Mot de passe actuel invalide'', None, st)"
    using auth by (auto simp: patch_me_def)
  have C: "(c \<noteq> None \<longleftrightarrow> stored_email st' (cl_id u) \<noteq> stored_email st (cl_id u))
          \<and> (\<forall>cl. c = Some cl \<longrightarrow> Some (cl_email cl) = stored_email st' (cl_id u) \<and> cl_id cl = cl_id u)
          \<and> ((\<exists>code msg. r = Error code msg) \<longrightarrow> st' = st)"
    if r: "patch_me e st ck name email cur newPassword = (r, c, st')" for r c st'
    using patch_me_cases [OF auth r]
  proof (elim disjE exE conjE)
    assume "c = None" "st' = st"
    then show ?thesis by simp
  next
    fix me
    assume "find (\<lambda>x. u_id x = cl_id u) (users st) = Some me"
      and "update_me e st me name email newPassword = (r, c, st')"
    then show ?thesis by (rule update_me_cookie)
  qed
  show ?thesis using A B C by blast
qed

lemmas me_defs = patch_me_def update_me_def data_name_def data_email_def data_password_def
  email_taken_def user_update_def apply_data_def trim_def is_space_def

lemma patch_me_email:
  "patch_me env0 store0 (ValidToken alice) JUndefined (JStr '' alice@new.org'') (JStr ''secret'') JUndefined
     = (UserJson 2 ''alice@new.org'' (Some ''Alice'') False,
        Some \<lparr>cl_id = 2, cl_email = ''alice@new.org'', cl_admin = False\<rparr>,
        with_alice (alice_row\<lparr>u_email := ''alice@new.org''\<rparr>))"
  by (simp add: me_defs shop_defs with_alice_def alice_row_def Let_def)

lemma patch_me_name:
  "patch_me env0 store0 (ValidToken alice) (JStr ''Alice B'') JUndefined (JStr ''secret'') JUndefined
     = (UserJson 2 ''alice@example.com'' (Some ''Alice B'') False, None,
        with_alice (alice_row\<lparr>u_name := Some ''Alice B''\<rparr>))"
  by (simp add: me_defs shop_defs with_alice_def alice_row_def Let_def)

lemma patch_me_password:
  "patch_me env0 store0 (ValidToken alice) JUndefined JUndefined (JStr ''secret'') (JStr ''hunter2'')
     = (UserJson 2 ''alice@example.com'' (Some ''Alice'') False, None,
        with_alice (alice_row\<lparr>u_password := ''$2a$hunter2''\<rparr>))"
  by (simp add: me_defs shop_defs with_alice_def alice_row_def Let_def)

theorem profile_update_secret_and_cookie_witness:
  "requireAuth (ValidToken alice) = Inr alice
   \<and> patch_me env0 store0 (ValidToken alice) (JStr ''Alice B'') JUndefined JUndefined JUndefined
       = (Error 400 ''Mot de passe actuel requis'', None, store0)
   \<and> patch_me env0 store0 (ValidToken alice) (JStr ''Alice B'') JUndefined (JStr ''guess'') JUndefined
       = (Error 401 ''Mot de passe actuel invalide'', None, store0)
   \<and> stored_email store0 2 = Some ''alice@example.com''
   \<and> fst (snd (patch_me env0 store0 (ValidToken alice) JUndefined (JStr '' alice@new.org'')
         (JStr ''secret'') JUndefined))
       = Some \<lparr>cl_id = 2, cl_email = ''alice@new.org'', cl_admin = False\<rparr>
   \<and> stored_email (with_alice (alice_row\<lparr>u_email := ''alice@new.org''\<rparr>)) (cl_id alice)
       \<noteq> stored_email store0 (cl_id alice)
   \<and> stored_email (with_alice (alice_row\<lparr>u_name := Some ''Alice B''\<rparr>)) (cl_id alice)
       = stored_email store0 (cl_id alice)
   \<and> stored_email (with_alice (alice_row\<lparr>u_password := ''$2a$hunter2''\<rparr>)) (cl_id alice)
       = stored_email store0 (cl_id alice)"
proof -
  have a: "requireAuth (ValidToken alice) = Inr alice" by simp
  have me: "find (\<lambda>x. u_id x = cl_id alice) (users store0) = Some alice_row"
    by (simp add: shop_defs alice_row_def)
  have bad: "\<not> bcrypt_compare env0 ''guess'' (u_password alice_row)"
    by (simp add: shop_defs alice_row_def)
  from profile_update_secret_and_cookie [OF a, of JUndefined env0 store0 "JStr ''Alice B''" JUndefined JUndefined]
  have w1: "patch_me env0 store0 (ValidToken alice) (JStr ''Alice B'') JUndefined JUndefined JUndefined
       = (Error 400 ''Mot de passe actuel requis'', None, store0)" by simp
  from profile_update_secret_and_cookie [OF a, of "JStr ''guess''" env0 store0 "JStr ''Alice B''" JUndefined JUndefined]
    me bad
  have w2: "patch_me env0 store0 (ValidToken alice) (JStr ''Alice B'') JUndefined (JStr ''guess'') JUndefined
       = (Error 401 ''Mot de passe actuel invalide'', None, store0)" by blast
  from profile_update_secret_and_cookie [OF a, of "JStr ''secret''" env0 store0 JUndefined "JStr '' alice@new.org''" JUndefined]
    patch_me_email
  have w3: "stored_email (with_alice (alice_row\<lparr>u_email := ''alice@new.org''\<rparr>)) (cl_id alice)
       \<noteq> stored_email store0 (cl_id alice)" by blast
  from profile_update_secret_and_cookie [OF a, of "JStr ''secret''" env0 store0 "JStr ''Alice B''" JUndefined JUndefined]
    patch_me_name
  have w4: "stored_email (with_alice (alice_row\<lparr>u_name := Some ''Alice B''\<rparr>)) (cl_id alice)
       = stored_email store0 (cl_id alice)" by blast
  from profile_update_secret_and_cookie [OF a, of "JStr ''secret''" env0 store0 JUndefined JUndefined "JStr ''hunter2''"]
    patch_me_password
  have w5: "stored_email (with_alice (alice_row\<lparr>u_password := ''$2a$hunter2''\<rparr>)) (cl_id alice)
       = stored_email store0 (cl_id alice)" by blast
  have e0: "stored_email store0 2 = Some ''alice@example.com''"
    by (simp add: stored_email_def shop_defs)
  show ?thesis using a w1 w2 w3 w4 w5 e0 by (simp add: patch_me_email)
qed

end
